theory Spec2Isabelle
  imports Complex_Main
begin

section \<open>Data model\<close>

text \<open>
  The animation engine of the travel map (component \<open>MapContent\<close>). JavaScript numbers
  are modelled as real numbers, and the non-finite results of a division by zero are an
  explicit failure (see \<open>js_div\<close>). The builder and the interpolator are given twice:
  with exact arithmetic, which the engine below uses, and with the result of every
  operation rounded (section on doubles), for the properties that rounding can change.
\<close>

datatype TransportMode = CAR | TRAIN | BUS

record Coordinates =
  lat :: real
  lng :: real

text \<open>\<open>RouteLeg\<close> of types.ts; its mode field is named \<open>leg_mode\<close> here, \<open>mode\<close> being
  the field of \<open>PathPoint\<close>.\<close>

record RouteLeg =
  coordinates :: "Coordinates list"
  leg_mode :: TransportMode
  distance :: real
  duration :: real

record RouteData =
  legs :: "RouteLeg list"
  totalDistance :: real
  totalDuration :: real
  boundingBox :: "Coordinates \<times> Coordinates"

text \<open>\<open>PathPoint\<close>: a point of the flattened path, with the metres from the start.\<close>

record PathPoint = Coordinates +
  mode :: TransportMode
  cumulativeDistance :: real

text \<open>\<open>L.latLng(lat, lng)\<close> for finite arguments.\<close>

definition latLng :: "real \<Rightarrow> real \<Rightarrow> Coordinates" where
  "latLng a b = \<lparr>lat = a, lng = b\<rparr>"

datatype error = TypeError | InvalidLatLng

text \<open>Reading \<open>xs[i]\<close>: \<open>undefined\<close> (here \<open>None\<close>) outside the array.\<close>

definition elemAt :: "'a list \<Rightarrow> int \<Rightarrow> 'a option" where
  "elemAt xs i = (if 0 \<le> i \<and> i < int (length xs) then Some (xs ! nat i) else None)"

text \<open>\<open>Array.prototype.findIndex\<close>: the first index whose element satisfies the
  predicate, or \<open>-1\<close>.\<close>

fun findIndex :: "('a \<Rightarrow> bool) \<Rightarrow> 'a list \<Rightarrow> int" where
  "findIndex P [] = - 1"
| "findIndex P (x # xs) =
     (if P x then 0
      else (let r = findIndex P xs in if r = - 1 then - 1 else r + 1))"

text \<open>A quotient of two numbers; \<open>None\<close> stands for the non-finite results
  (\<open>Infinity\<close>, \<open>NaN\<close>) of a division by zero, which \<open>L.latLng\<close> rejects.\<close>

definition js_div :: "real \<Rightarrow> real \<Rightarrow> real option" where
  "js_div a b = (if b = 0 then None else Some (a / b))"

section \<open>PathModel builder\<close>

text \<open>
  The body of the inner \<open>forEach\<close> of the route effect: one coordinate \<open>c\<close> of a leg
  of mode \<open>m\<close> is appended to \<open>points\<close>, and \<open>currentDist\<close> grows by the distance from
  the previous point. \<open>distanceTo\<close> is Leaflet's \<open>LatLng.distanceTo\<close>, a parameter here.
\<close>

definition addPoint ::
  "(Coordinates \<Rightarrow> Coordinates \<Rightarrow> real) \<Rightarrow> TransportMode \<Rightarrow>
   PathPoint list \<times> real \<Rightarrow> Coordinates \<Rightarrow> PathPoint list \<times> real" where
  "addPoint distanceTo m acc c =
     (let points = fst acc;
          currentDist = snd acc;
          dist = (if length points > 0
                  then (let prev = points ! (length points - 1);
                            from = latLng (lat prev) (lng prev);
                            to = latLng (lat c) (lng c)
                        in distanceTo from to)
                  else 0);
          currentDist' = currentDist + dist
      in (points @ [\<lparr>lat = lat c, lng = lng c, mode = m,
                      cumulativeDistance = currentDist'\<rparr>], currentDist'))"

definition addLeg ::
  "(Coordinates \<Rightarrow> Coordinates \<Rightarrow> real) \<Rightarrow>
   PathPoint list \<times> real \<Rightarrow> RouteLeg \<Rightarrow> PathPoint list \<times> real" where
  "addLeg distanceTo acc leg = foldl (addPoint distanceTo (leg_mode leg)) acc (coordinates leg)"

text \<open>The pre-processing of the route effect: the pair \<open>(points, currentDist)\<close> that is
  stored as \<open>pathDataRef\<close> and \<open>totalDistanceRef\<close>.\<close>

definition buildPath ::
  "(Coordinates \<Rightarrow> Coordinates \<Rightarrow> real) \<Rightarrow> RouteLeg list \<Rightarrow> PathPoint list \<times> real" where
  "buildPath distanceTo ls = foldl (addLeg distanceTo) ([], 0) ls"

section \<open>Interpolator\<close>

text \<open>Lines 351 to 353 of \<open>animate\<close>: the index of the segment's end point.\<close>

definition nextIdx :: "PathPoint list \<Rightarrow> real \<Rightarrow> int" where
  "nextIdx path targetDist =
     (let i = findIndex (\<lambda>p. cumulativeDistance p \<ge> targetDist) path;
          i = (if i = - 1 then int (length path) - 1 else i);
          i = (if i = 0 then 1 else i)
      in i)"

text \<open>Lines 359 to 361: the position within the segment, as a fraction of its length.\<close>

definition segmentRatio :: "PathPoint \<Rightarrow> PathPoint \<Rightarrow> real \<Rightarrow> real option" where
  "segmentRatio p1 p2 targetDist =
     (let segmentDist = cumulativeDistance p2 - cumulativeDistance p1;
          distInSegment = targetDist - cumulativeDistance p1
      in if segmentDist > 0 then js_div distInSegment segmentDist else Some 0)"

text \<open>Lines 351 to 368: the point handed to \<open>updateMapState\<close> and the direction flag.\<close>

definition interpolate :: "PathPoint list \<Rightarrow> real \<Rightarrow> error + (PathPoint \<times> bool)" where
  "interpolate path targetDist =
     (let i = nextIdx path targetDist
      in case (elemAt path (i - 1), elemAt path i) of
           (Some p1, Some p2) \<Rightarrow>
             (case segmentRatio p1 p2 targetDist of
                None \<Rightarrow> Inl InvalidLatLng
              | Some ratio \<Rightarrow>
                  (let lat' = lat p1 + (lat p2 - lat p1) * ratio;
                       lng' = lng p1 + (lng p2 - lng p1) * ratio;
                       isFlipped = (lng p2 < lng p1);
                       mode' = mode p1
                   in Inr (\<lparr>lat = lat', lng = lng', mode = mode',
                             cumulativeDistance = targetDist\<rparr>, isFlipped)))
         | _ \<Rightarrow> Inl TypeError)"

section \<open>Arithmetic on doubles\<close>

text \<open>
  Where rounding can change a result, the arithmetic of the source is modelled with a
  rounding function \<open>rnd\<close> applied to the result of every operation. The exact
  functions above are the instance in which \<open>rnd\<close> is the identity (lemmas
  \<open>buildPath_rounded_exact\<close> and \<open>interpolate_rounded_exact\<close>); the numbers of
  JavaScript are the instance \<open>round_double\<close>.
\<close>

text \<open>Rounding to the nearest integer, a tie going to the even one.\<close>

definition round_even :: "real \<Rightarrow> int" where
  "round_even y =
     (let f = \<lfloor>y\<rfloor>
      in if y - of_int f < 1 / 2 then f
         else if y - of_int f > 1 / 2 then f + 1
         else if even f then f else f + 1)"

text \<open>The exponent of the spacing of the doubles around \<open>x\<close>: 52 binary places below
  the leading bit, and never below the spacing of the subnormal numbers.\<close>

definition ulp_exponent :: "real \<Rightarrow> int" where
  "ulp_exponent x = max (\<lfloor>log 2 \<bar>x\<bar>\<rfloor> - 52) (- 1074)"

text \<open>The double nearest to a real number (IEEE 754 binary64, round to nearest, ties
  to even). Overflow to \<open>Infinity\<close> is not modelled.\<close>

definition round_double :: "real \<Rightarrow> real" where
  "round_double x =
     (if x = 0 then 0
      else (let u = 2 powr of_int (ulp_exponent x)
            in of_int (round_even (x / u)) * u))"




text \<open>Lines 359 to 361 and lines 351 to 368, with every difference, quotient, product
  and sum rounded. The index of the segment needs comparisons only.\<close>

definition segmentRatio_rounded ::
  "(real \<Rightarrow> real) \<Rightarrow> PathPoint \<Rightarrow> PathPoint \<Rightarrow> real \<Rightarrow> real option" where
  "segmentRatio_rounded rnd p1 p2 targetDist =
     (let segmentDist = rnd (cumulativeDistance p2 - cumulativeDistance p1);
          distInSegment = rnd (targetDist - cumulativeDistance p1)
      in if segmentDist > 0 then map_option rnd (js_div distInSegment segmentDist)
         else Some 0)"

definition interpolate_rounded ::
  "(real \<Rightarrow> real) \<Rightarrow> PathPoint list \<Rightarrow> real \<Rightarrow> error + (PathPoint \<times> bool)" where
  "interpolate_rounded rnd path targetDist =
     (let i = nextIdx path targetDist
      in case (elemAt path (i - 1), elemAt path i) of
           (Some p1, Some p2) \<Rightarrow>
             (case segmentRatio_rounded rnd p1 p2 targetDist of
                None \<Rightarrow> Inl InvalidLatLng
              | Some ratio \<Rightarrow>
                  (let lat' = rnd (lat p1 + rnd (rnd (lat p2 - lat p1) * ratio));
                       lng' = rnd (lng p1 + rnd (rnd (lng p2 - lng p1) * ratio));
                       isFlipped = (lng p2 < lng p1);
                       mode' = mode p1
                   in Inr (\<lparr>lat = lat', lng = lng', mode = mode',
                             cumulativeDistance = targetDist\<rparr>, isFlipped)))
         | _ \<Rightarrow> Inl TypeError)"

section \<open>Rendering surface and engine state\<close>

definition ANIMATION_DURATION_SECONDS :: real where
  "ANIMATION_DURATION_SECONDS = 90"

definition FOLLOW_ZOOM_LEVEL :: real where
  "FOLLOW_ZOOM_LEVEL = 10"

fun COLORS :: "TransportMode \<Rightarrow> string" where
  "COLORS CAR = ''#0099ff''"
| "COLORS TRAIN = ''#22c55e''"
| "COLORS BUS = ''#ec4899''"

text \<open>A Leaflet polyline, by its points and its colour (weight, opacity and line caps
  are the same constants everywhere). \<open>L.polyline\<close> and \<open>setLatLngs\<close> copy the array
  they are given, so a polyline holds the points as they were at the call.\<close>

record Polyline =
  latlngs :: "Coordinates list"
  color :: string

text \<open>The icon made by \<open>createLeafletIcon\<close>, by the two arguments that decide its
  markup: the mode and the horizontal flip.\<close>

datatype Icon = DivIcon TransportMode bool

definition createLeafletIcon :: "TransportMode \<Rightarrow> bool \<Rightarrow> Icon" where
  "createLeafletIcon m isFlipped = DivIcon m isFlipped"

record Marker =
  position :: Coordinates
  icon :: Icon

text \<open>The last camera command the component has issued to the map.\<close>

datatype Camera = Untouched | FitBounds Coordinates Coordinates | SetView Coordinates real

text \<open>
  The refs of \<open>MapContent\<close>. A ref to a Leaflet object is \<open>None\<close> while it is \<open>null\<close>;
  the layer group is the list of the frozen polylines added to it. \<open>framePending\<close>
  says whether a callback requested with \<open>requestAnimationFrame\<close> is waiting (the
  source keeps its id in \<open>animationFrameRef\<close>), \<open>camera\<close> is the view of the map, and
  \<open>completions\<close> counts the calls of \<open>onAnimationComplete\<close>. The background preview
  polylines are static rendering and are left out.
\<close>

record MapContent =
  vehicleMarkerRef :: "Marker option"
  finishedSegmentsLayerRef :: "Polyline list option"
  currentSegmentPolylineRef :: "Polyline option"
  currentSegmentPointsRef :: "Coordinates list"
  pathDataRef :: "PathPoint list"
  totalDistanceRef :: real
  framePending :: bool
  startTimeRef :: real
  isAnimatingRef :: bool
  startZoomRef :: real
  prevModeRef :: TransportMode
  prevFlippedRef :: bool
  camera :: Camera
  completions :: nat

text \<open>The state of a freshly mounted component: the initial values of the refs.\<close>

definition initialMapContent :: MapContent where
  "initialMapContent =
     \<lparr>vehicleMarkerRef = None, finishedSegmentsLayerRef = None,
      currentSegmentPolylineRef = None, currentSegmentPointsRef = [],
      pathDataRef = [], totalDistanceRef = 0, framePending = False,
      startTimeRef = 0, isAnimatingRef = False, startZoomRef = 0,
      prevModeRef = CAR, prevFlippedRef = False, camera = Untouched,
      completions = 0\<rparr>"

section \<open>Trail manager: updateMapState\<close>

text \<open>Step 2 of \<open>updateMapState\<close> (lines 138 to 160): on a change of mode the live
  points are frozen as a polyline of the previous mode's colour, unless there are
  none, and the live polyline restarts at the new position in the new colour.\<close>

definition updateMode ::
  "PathPoint \<Rightarrow> bool \<Rightarrow> Coordinates \<Rightarrow> MapContent \<Rightarrow> MapContent" where
  "updateMode point isFlipped interpolatedPos st =
     (if mode point \<noteq> prevModeRef st
      then
        (let st = (if length (currentSegmentPointsRef st) > 0
                   then st\<lparr>finishedSegmentsLayerRef :=
                            map_option (\<lambda>layers. layers @
                               [\<lparr>latlngs = currentSegmentPointsRef st,
                                 color = COLORS (prevModeRef st)\<rparr>])
                              (finishedSegmentsLayerRef st)\<rparr>
                   else st);
             st = st\<lparr>currentSegmentPointsRef := [interpolatedPos]\<rparr>;
             st = st\<lparr>currentSegmentPolylineRef :=
                       map_option (\<lambda>pl. pl\<lparr>latlngs := currentSegmentPointsRef st\<rparr>)
                         (currentSegmentPolylineRef st)\<rparr>;
             st = st\<lparr>currentSegmentPolylineRef :=
                       map_option (\<lambda>pl. pl\<lparr>color := COLORS (mode point)\<rparr>)
                         (currentSegmentPolylineRef st)\<rparr>;
             st = st\<lparr>vehicleMarkerRef :=
                       map_option (\<lambda>mk. mk\<lparr>icon := createLeafletIcon (mode point) isFlipped\<rparr>)
                         (vehicleMarkerRef st)\<rparr>
         in st\<lparr>prevModeRef := mode point\<rparr>)
      else st)"

text \<open>Lines 163 to 167: the icon is remade when the direction flag changes.\<close>

definition updateFlipped :: "PathPoint \<Rightarrow> bool \<Rightarrow> MapContent \<Rightarrow> MapContent" where
  "updateFlipped point isFlipped st =
     (if isFlipped \<noteq> prevFlippedRef st
      then st\<lparr>vehicleMarkerRef :=
                 map_option (\<lambda>mk. mk\<lparr>icon := createLeafletIcon (mode point) isFlipped\<rparr>)
                   (vehicleMarkerRef st),
               prevFlippedRef := isFlipped\<rparr>
      else st)"

text \<open>Step 3 (lines 170 and 171): the position is pushed onto the live points, on
  every call.\<close>

definition growTrail :: "Coordinates \<Rightarrow> MapContent \<Rightarrow> MapContent" where
  "growTrail interpolatedPos st =
     (let st = st\<lparr>currentSegmentPointsRef := currentSegmentPointsRef st @ [interpolatedPos]\<rparr>
      in st\<lparr>currentSegmentPolylineRef :=
               map_option (\<lambda>pl. pl\<lparr>latlngs := currentSegmentPointsRef st\<rparr>)
                 (currentSegmentPolylineRef st)\<rparr>)"

definition updateMapState ::
  "MapContent \<Rightarrow> PathPoint \<Rightarrow> bool \<Rightarrow> bool \<Rightarrow> Coordinates \<Rightarrow> real \<Rightarrow> MapContent" where
  "updateMapState st point isFinal isFlipped interpolatedPos currentZoom =
     (if vehicleMarkerRef st = None \<or> currentSegmentPolylineRef st = None
         \<or> finishedSegmentsLayerRef st = None
      then st
      else
        (let st = st\<lparr>vehicleMarkerRef :=
                       map_option (\<lambda>mk. mk\<lparr>position := interpolatedPos\<rparr>)
                         (vehicleMarkerRef st)\<rparr>;
             st = updateMode point isFlipped interpolatedPos st;
             st = updateFlipped point isFlipped st;
             st = growTrail interpolatedPos st
         in if \<not> isFinal then st\<lparr>camera := SetView interpolatedPos currentZoom\<rparr> else st))"

section \<open>Route effect\<close>

text \<open>The effect that runs when \<open>routeData\<close> changes: it cancels the animation, removes
  the layers, rebuilds the path and, for a path with a point, creates the layers and
  the vehicle marker at the first point.\<close>

definition routeEffect ::
  "(Coordinates \<Rightarrow> Coordinates \<Rightarrow> real) \<Rightarrow> MapContent \<Rightarrow> RouteData option \<Rightarrow> MapContent" where
  "routeEffect distanceTo st routeData =
     (let st = st\<lparr>framePending := False, isAnimatingRef := False,
                  vehicleMarkerRef := None, finishedSegmentsLayerRef := None,
                  currentSegmentPolylineRef := None, pathDataRef := [],
                  currentSegmentPointsRef := []\<rparr>
      in case routeData of
           None \<Rightarrow> st
         | Some rd \<Rightarrow>
             (let built = buildPath distanceTo (legs rd);
                  points = fst built;
                  currentDist = snd built;
                  st = st\<lparr>pathDataRef := points, totalDistanceRef := currentDist\<rparr>
              in if length points = 0 then st
                 else
                   (let startPoint = points ! 0;
                        sw = fst (boundingBox rd);
                        ne = snd (boundingBox rd)
                    in st\<lparr>finishedSegmentsLayerRef := Some [],
                          currentSegmentPolylineRef :=
                            Some \<lparr>latlngs = [], color = COLORS (mode startPoint)\<rparr>,
                          vehicleMarkerRef :=
                            Some \<lparr>position = latLng (lat startPoint) (lng startPoint),
                                  icon = createLeafletIcon (mode startPoint) False\<rparr>,
                          prevModeRef := mode startPoint,
                          prevFlippedRef := False,
                          camera := (if lat sw \<noteq> 0 \<and> lat ne \<noteq> 0
                                     then FitBounds sw ne else camera st)\<rparr>)))"

section \<open>Animation clock and camera\<close>

definition durationMs :: real where
  "durationMs = ANIMATION_DURATION_SECONDS * 1000"

definition rawProgress :: "real \<Rightarrow> real" where
  "rawProgress elapsed = min (elapsed / durationMs) 1"

text \<open>Lines 326 to 329: the eased progress is the raw progress.\<close>

definition targetDist :: "real \<Rightarrow> real \<Rightarrow> real" where
  "targetDist totalDist elapsed =
     (let easedProgress = rawProgress elapsed in totalDist * easedProgress)"

definition zoomDuration :: real where
  "zoomDuration = 3000"

text \<open>Lines 331 to 340: the zoom of the tick, from the zoom captured at the start.\<close>

definition currentZoom :: "real \<Rightarrow> real \<Rightarrow> real" where
  "currentZoom startZoom elapsed =
     (if elapsed < zoomDuration
      then (let zoomProgress = elapsed / zoomDuration;
                ease = 1 - (1 - zoomProgress) ^ 3
            in startZoom + (FOLLOW_ZOOM_LEVEL - startZoom) * ease)
      else FOLLOW_ZOOM_LEVEL)"

text \<open>
  One tick: the callback \<open>animate\<close> run at the timestamp \<open>time\<close>. The pending request
  is consumed; the tick ends by requesting the next frame, except on completion. A
  property read on \<open>undefined\<close> is the failure \<open>TypeError\<close>.
\<close>

definition animate :: "MapContent \<Rightarrow> real \<Rightarrow> error + MapContent" where
  "animate st time =
     (let elapsed = time - startTimeRef st;
          zoom = currentZoom (startZoomRef st) elapsed
      in if rawProgress elapsed \<ge> 1
         then (case elemAt (pathDataRef st) (int (length (pathDataRef st)) - 1) of
                 None \<Rightarrow> Inl TypeError
               | Some lastPoint \<Rightarrow>
                   (let st = updateMapState st lastPoint True False
                               (latLng (lat lastPoint) (lng lastPoint)) FOLLOW_ZOOM_LEVEL;
                        st = st\<lparr>completions := completions st + 1\<rparr>
                    in Inr (st\<lparr>isAnimatingRef := False, framePending := False\<rparr>)))
         else (case interpolate (pathDataRef st)
                      (targetDist (totalDistanceRef st) elapsed) of
                 Inl e \<Rightarrow> Inl e
               | Inr (point, isFlipped) \<Rightarrow>
                   (let currentPos = latLng (lat point) (lng point);
                        st = updateMapState st point False isFlipped currentPos zoom
                    in Inr (st\<lparr>framePending := True\<rparr>))))"

text \<open>
  The animation effect, run when \<open>isPlaying\<close> changes (after the cleanup of its previous
  run, which cancels the pending frame). \<open>now\<close> is \<open>performance.now()\<close> and \<open>zoom\<close>
  is \<open>map.getZoom()\<close> at that moment.
\<close>

definition animationEffect :: "MapContent \<Rightarrow> bool \<Rightarrow> real \<Rightarrow> real \<Rightarrow> MapContent" where
  "animationEffect st isPlaying now zoom =
     (if \<not> isPlaying \<or> length (pathDataRef st) < 2
      then st\<lparr>framePending := False, isAnimatingRef := False\<rparr>
      else
        (let st = (if \<not> isAnimatingRef st
                   then st\<lparr>isAnimatingRef := True, startTimeRef := now,
                           startZoomRef := zoom,
                           finishedSegmentsLayerRef :=
                             map_option (\<lambda>layers. []) (finishedSegmentsLayerRef st),
                           currentSegmentPointsRef := [],
                           currentSegmentPolylineRef :=
                             map_option (\<lambda>pl. pl\<lparr>latlngs := []\<rparr>)
                               (currentSegmentPolylineRef st)\<rparr>
                   else st)
         in st\<lparr>framePending := True\<rparr>))"

text \<open>The frames of a run: the browser calls \<open>animate\<close> at each timestamp for as long
  as a frame is pending; a failure ends the run.\<close>

fun run :: "MapContent \<Rightarrow> real list \<Rightarrow> error + MapContent" where
  "run st [] = Inr st"
| "run st (t # ts) =
     (if framePending st
      then (case animate st t of Inl e \<Rightarrow> Inl e | Inr st' \<Rightarrow> run st' ts)
      else Inr st)"

section \<open>Auxiliary notions for the proofs\<close>

text \<open>What every prefix of the construction satisfies: the running total is the last
  cumulative distance, the first one is 0, and each step adds the distance between
  its two points.\<close>

definition path_inv ::
  "(Coordinates \<Rightarrow> Coordinates \<Rightarrow> real) \<Rightarrow> PathPoint list \<times> real \<Rightarrow> bool" where
  "path_inv distanceTo acc \<longleftrightarrow>
     (fst acc = [] \<longrightarrow> snd acc = 0) \<and>
     (fst acc \<noteq> [] \<longrightarrow> cumulativeDistance (last (fst acc)) = snd acc
                       \<and> cumulativeDistance (fst acc ! 0) = 0) \<and>
     (\<forall>k. Suc k < length (fst acc) \<longrightarrow>
        cumulativeDistance (fst acc ! Suc k) =
          cumulativeDistance (fst acc ! k) +
          distanceTo (latLng (lat (fst acc ! k)) (lng (fst acc ! k)))
                     (latLng (lat (fst acc ! Suc k)) (lng (fst acc ! Suc k))))"

text \<open>The points of a path and of a leg without the distances.\<close>

definition path_shape :: "PathPoint list \<Rightarrow> (real \<times> real \<times> TransportMode) list" where
  "path_shape ps = map (\<lambda>p. (lat p, lng p, mode p)) ps"

definition leg_shape :: "RouteLeg \<Rightarrow> (real \<times> real \<times> TransportMode) list" where
  "leg_shape leg = map (\<lambda>c. (lat c, lng c, leg_mode leg)) (coordinates leg)"


text \<open>The layers and the marker exist: \<open>updateMapState\<close> does not return early.\<close>

definition ready :: "MapContent \<Rightarrow> bool" where
  "ready st \<longleftrightarrow> vehicleMarkerRef st \<noteq> None \<and> currentSegmentPolylineRef st \<noteq> None
     \<and> finishedSegmentsLayerRef st \<noteq> None"

section \<open>An example route\<close>

text \<open>A stand-in for \<open>distanceTo\<close> in the examples: the sum of the differences in
  latitude and in longitude.\<close>

definition planarDistance :: "Coordinates \<Rightarrow> Coordinates \<Rightarrow> real" where
  "planarDistance a b = \<bar>lat b - lat a\<bar> + \<bar>lng b - lng a\<bar>"

text \<open>Two legs that meet at the point (0, 10): by car eastwards, then by train to the
  north-west.\<close>

definition example_legs :: "RouteLeg list" where
  "example_legs =
     [\<lparr>coordinates = [\<lparr>lat = 0, lng = 0\<rparr>, \<lparr>lat = 0, lng = 10\<rparr>],
       leg_mode = CAR, distance = 10, duration = 1\<rparr>,
      \<lparr>coordinates = [\<lparr>lat = 0, lng = 10\<rparr>, \<lparr>lat = 4, lng = 6\<rparr>],
       leg_mode = TRAIN, distance = 8, duration = 1\<rparr>]"

text \<open>The path that the builder makes of them (lemma \<open>buildPath_example\<close>).\<close>

definition example_path :: "PathPoint list" where
  "example_path =
     [\<lparr>lat = 0, lng = 0, mode = CAR, cumulativeDistance = 0\<rparr>,
      \<lparr>lat = 0, lng = 10, mode = CAR, cumulativeDistance = 10\<rparr>,
      \<lparr>lat = 0, lng = 10, mode = TRAIN, cumulativeDistance = 10\<rparr>,
      \<lparr>lat = 4, lng = 6, mode = TRAIN, cumulativeDistance = 18\<rparr>]"

text \<open>The example as route data, the state after loading it into a fresh component,
  and the state after starting playback at time 1000 from zoom 5.\<close>

definition example_route :: RouteData where
  "example_route =
     \<lparr>legs = example_legs, totalDistance = 18, totalDuration = 2,
      boundingBox = (\<lparr>lat = - 1, lng = - 1\<rparr>, \<lparr>lat = 5, lng = 11\<rparr>)\<rparr>"

definition example_loaded :: MapContent where
  "example_loaded = routeEffect planarDistance initialMapContent (Some example_route)"

definition example_playing :: MapContent where
  "example_playing = animationEffect example_loaded True 1000 5"

text \<open>The state after a first tick at time 46000, half-way through the playback
  (lemma \<open>example_first_tick\<close>).\<close>

definition example_midway :: MapContent where
  "example_midway =
     \<lparr>vehicleMarkerRef = Some \<lparr>position = \<lparr>lat = 0, lng = 9\<rparr>, icon = DivIcon CAR False\<rparr>,
      finishedSegmentsLayerRef = Some [],
      currentSegmentPolylineRef = Some \<lparr>latlngs = [\<lparr>lat = 0, lng = 9\<rparr>], color = ''#0099ff''\<rparr>,
      currentSegmentPointsRef = [\<lparr>lat = 0, lng = 9\<rparr>],
      pathDataRef = example_path, totalDistanceRef = 18, framePending = True,
      startTimeRef = 1000, isAnimatingRef = True, startZoomRef = 5,
      prevModeRef = CAR, prevFlippedRef = False,
      camera = SetView \<lparr>lat = 0, lng = 9\<rparr> 10,
      completions = 0\<rparr>"


text \<open>A path of one segment from latitude -56 to the double that is written 28.4
  (lemma \<open>round_double_28_4\<close>).\<close>

definition overshoot_path :: "PathPoint list" where
  "overshoot_path =
     [\<lparr>lat = - 56, lng = 0, mode = CAR, cumulativeDistance = 0\<rparr>,
      \<lparr>lat = 3996944669291315 / 140737488355328, lng = 0, mode = CAR,
       cumulativeDistance = 100\<rparr>]"

section \<open>Properties of the rounding\<close>

lemma round_even_int [simp]: "round_even (of_int n) = n"
  by (simp add: round_even_def)

lemma round_even_bounds: "of_int (round_even y) \<le> y + 1 / 2 \<and> y - 1 / 2 \<le> of_int (round_even y)"
  unfolding round_even_def Let_def by (auto; linarith)

lemma round_even_mono:
  assumes "a \<le> b"
  shows "round_even a \<le> round_even b"
proof (cases "\<lfloor>a\<rfloor> = \<lfloor>b\<rfloor>")
  case True
  with assms show ?thesis
    unfolding round_even_def Let_def by auto
next
  case False
  with assms have "\<lfloor>a\<rfloor> < \<lfloor>b\<rfloor>" by (simp add: floor_mono order.strict_iff_order)
  then have "\<lfloor>a\<rfloor> + 1 \<le> \<lfloor>b\<rfloor>" by simp
  moreover have "round_even a \<le> \<lfloor>a\<rfloor> + 1" by (simp add: round_even_def Let_def)
  moreover have "\<lfloor>b\<rfloor> \<le> round_even b" by (simp add: round_even_def Let_def)
  ultimately show ?thesis by linarith
qed

lemma round_even_uminus: "round_even (- y) = - round_even y"
proof (cases "y \<in> \<int>")
  case True
  then obtain n where "y = of_int n" by (auto elim: Ints_cases)
  then have "- y = of_int (- n)" by simp
  then show ?thesis using \<open>y = of_int n\<close> by (simp only: round_even_int)
next
  case False
  have ne: "y \<noteq> of_int \<lfloor>y\<rfloor>"
  proof
    assume e: "y = of_int \<lfloor>y\<rfloor>"
    have "(of_int \<lfloor>y\<rfloor> :: real) \<in> \<int>" by (rule Ints_of_int)
    with e False show False by simp
  qed
  with of_int_floor_le [of y] have lt: "of_int \<lfloor>y\<rfloor> < y" by linarith
  have up: "y < of_int \<lfloor>y\<rfloor> + 1" by linarith
  have cast: "real_of_int (- \<lfloor>y\<rfloor> - 1) = - real_of_int \<lfloor>y\<rfloor> - 1" by simp
  have "of_int (- \<lfloor>y\<rfloor> - 1) \<le> - y" unfolding cast using up by linarith
  moreover have "- y < of_int (- \<lfloor>y\<rfloor> - 1) + 1" unfolding cast using lt by linarith
  ultimately have fl: "\<lfloor>- y\<rfloor> = - \<lfloor>y\<rfloor> - 1"
    by (rule floor_unique)
  show ?thesis
    unfolding round_even_def Let_def fl using lt
    by (auto simp: algebra_simps)
qed

lemma ulp_exponent_uminus: "ulp_exponent (- x) = ulp_exponent x"
  by (simp add: ulp_exponent_def)

lemma round_double_uminus: "round_double (- x) = - round_double x"
  by (simp add: round_double_def ulp_exponent_uminus round_even_uminus Let_def)

lemma round_double_0: "round_double 0 = 0"
  by (simp add: round_double_def)

lemma ulp_exponent_ge: "- 1074 \<le> ulp_exponent x"
  by (simp add: ulp_exponent_def)

lemma below_next_binade:
  assumes "0 < x"
  shows "x < 2 powr of_int (ulp_exponent x + 53)"
proof -
  have "x < 2 powr (of_int \<lfloor>log 2 x\<rfloor> + 1)"
    using floor_log_eq_powr_iff [of x 2 "\<lfloor>log 2 x\<rfloor>"] assms by simp
  also have "\<dots> \<le> 2 powr of_int (ulp_exponent x + 53)"
    using assms by (intro powr_mono) (simp_all add: ulp_exponent_def)
  finally show ?thesis .
qed

lemma above_binade:
  assumes "0 < x" "- 1074 < ulp_exponent x"
  shows "2 powr of_int (ulp_exponent x + 52) \<le> x"
proof -
  from assms have e: "ulp_exponent x = \<lfloor>log 2 x\<rfloor> - 52"
    by (simp add: ulp_exponent_def max_def split: if_splits)
  have "2 powr of_int \<lfloor>log 2 x\<rfloor> \<le> x"
    using floor_log_eq_powr_iff [of x 2 "\<lfloor>log 2 x\<rfloor>"] assms by simp
  then show ?thesis by (simp add: e)
qed

lemma ulp_exponent_mono:
  assumes "0 < x" "x \<le> y"
  shows "ulp_exponent x \<le> ulp_exponent y"
proof -
  have "log 2 x \<le> log 2 y" using assms by simp
  then have "\<lfloor>log 2 x\<rfloor> \<le> \<lfloor>log 2 y\<rfloor>" by (rule floor_mono)
  then show ?thesis using assms by (simp add: ulp_exponent_def)
qed

lemma round_double_pos:
  assumes "0 < x"
  shows "round_double x =
     of_int (round_even (x / 2 powr of_int (ulp_exponent x))) * 2 powr of_int (ulp_exponent x)"
  using assms by (simp add: round_double_def Let_def)

lemma pow53: "(2::real) powr 53 = of_int (2 ^ 53)" "(2::real) powr 52 = of_int (2 ^ 52)"
  by simp_all

lemma round_double_upper:
  assumes "0 < x"
  shows "round_double x \<le> 2 powr of_int (ulp_exponent x + 53)"
proof -
  let ?u = "2 powr real_of_int (ulp_exponent x)"
  have u: "0 < ?u" by simp
  have "x / ?u \<le> 2 powr of_int (ulp_exponent x + 53) / ?u"
    using below_next_binade [OF assms] u by (simp add: divide_right_mono)
  also have "\<dots> = 2 powr 53"
    by (simp add: powr_diff [symmetric])
  finally have "round_even (x / ?u) \<le> round_even (of_int (2 ^ 53))"
    by (intro round_even_mono) (simp only: pow53)
  then have "round_even (x / ?u) \<le> 2 ^ 53" by (simp only: round_even_int)
  then have "real_of_int (round_even (x / ?u)) \<le> of_int (2 ^ 53)"
    by (simp only: of_int_le_iff)
  then have "real_of_int (round_even (x / ?u)) * ?u \<le> 2 powr 53 * ?u"
    using u by (simp only: pow53 mult_right_mono less_imp_le)
  also have "\<dots> = 2 powr of_int (ulp_exponent x + 53)"
    by (simp add: powr_add)
  finally show ?thesis by (simp only: round_double_pos [OF assms])
qed

lemma round_double_lower:
  assumes "0 < x" "- 1074 < ulp_exponent x"
  shows "2 powr of_int (ulp_exponent x + 52) \<le> round_double x"
proof -
  let ?u = "2 powr real_of_int (ulp_exponent x)"
  have u: "0 < ?u" by simp
  have "2 powr of_int (ulp_exponent x + 52) / ?u \<le> x / ?u"
    using above_binade [OF assms] u by (simp add: divide_right_mono)
  moreover have "2 powr of_int (ulp_exponent x + 52) / ?u = 2 powr 52"
    by (simp add: powr_diff [symmetric])
  ultimately have "round_even (of_int (2 ^ 52)) \<le> round_even (x / ?u)"
    by (intro round_even_mono) (simp only: pow53)
  then have "2 ^ 52 \<le> round_even (x / ?u)" by (simp only: round_even_int)
  then have "real_of_int (2 ^ 52) \<le> of_int (round_even (x / ?u))"
    by (simp only: of_int_le_iff)
  then have "2 powr 52 * ?u \<le> real_of_int (round_even (x / ?u)) * ?u"
    using u by (simp only: pow53 mult_right_mono less_imp_le)
  moreover have "2 powr 52 * ?u = 2 powr of_int (ulp_exponent x + 52)"
    by (simp add: powr_add)
  ultimately show ?thesis by (simp only: round_double_pos [OF assms(1)])
qed

lemma round_double_nonneg:
  assumes "0 < x"
  shows "0 \<le> round_double x"
proof -
  let ?u = "2 powr real_of_int (ulp_exponent x)"
  have "0 \<le> x / ?u" using assms by simp
  then have "round_even (of_int 0) \<le> round_even (x / ?u)"
    by (intro round_even_mono) simp
  then have "0 \<le> round_even (x / ?u)" by (simp only: round_even_int)
  then show ?thesis by (simp add: round_double_pos [OF assms])
qed

lemma round_double_mono_pos:
  assumes "0 < x" "x \<le> y"
  shows "round_double x \<le> round_double y"
proof -
  from assms have y: "0 < y" by simp
  have le: "ulp_exponent x \<le> ulp_exponent y" using assms by (rule ulp_exponent_mono)
  show ?thesis
  proof (cases "ulp_exponent x = ulp_exponent y")
    case True
    let ?u = "2 powr real_of_int (ulp_exponent y)"
    have "x / ?u \<le> y / ?u" using assms by (simp add: divide_right_mono)
    then have "round_even (x / ?u) \<le> round_even (y / ?u)" by (rule round_even_mono)
    then have "real_of_int (round_even (x / ?u)) * ?u \<le> real_of_int (round_even (y / ?u)) * ?u"
      by (simp add: mult_right_mono)
    then show ?thesis
      by (simp only: round_double_pos [OF assms(1)] round_double_pos [OF y] True)
  next
    case False
    with le have lt: "ulp_exponent x < ulp_exponent y" by simp
    with ulp_exponent_ge [of x] have "- 1074 < ulp_exponent y" by linarith
    from round_double_lower [OF y this]
    have "2 powr of_int (ulp_exponent y + 52) \<le> round_double y" .
    moreover have "(2::real) powr of_int (ulp_exponent x + 53) \<le> 2 powr of_int (ulp_exponent y + 52)"
      using lt by (intro powr_mono) simp_all
    ultimately show ?thesis using round_double_upper [OF assms(1)] by linarith
  qed
qed

lemma round_double_mono:
  assumes "x \<le> y"
  shows "round_double x \<le> round_double y"
proof -
  consider "0 < x" | "x \<le> 0" "0 \<le> y" | "y < 0" by linarith
  then show ?thesis
  proof cases
    case 1
    then show ?thesis using assms by (rule round_double_mono_pos)
  next
    case 2
    have "round_double x \<le> 0"
    proof (cases "x = 0")
      case True
      then show ?thesis by (simp add: round_double_0)
    next
      case False
      with 2 have "0 < - x" by simp
      then have "0 \<le> round_double (- x)" by (rule round_double_nonneg)
      then show ?thesis by (simp add: round_double_uminus)
    qed
    moreover have "0 \<le> round_double y"
    proof (cases "y = 0")
      case True
      then show ?thesis by (simp add: round_double_0)
    next
      case False
      with 2 have "0 < y" by simp
      then show ?thesis by (rule round_double_nonneg)
    qed
    ultimately show ?thesis by linarith
  next
    case 3
    then have "0 < - y" "- y \<le> - x" using assms by simp_all
    then have "round_double (- y) \<le> round_double (- x)" by (rule round_double_mono_pos)
    then show ?thesis by (simp add: round_double_uminus)
  qed
qed

lemma ulp_exponent_eqI:
  assumes x: "0 < x"
    and up: "x < 2 powr of_int (e + 53)"
    and lo: "e = - 1074 \<or> 2 powr of_int (e + 52) \<le> x"
    and e: "- 1074 \<le> e"
  shows "ulp_exponent x = e"
proof -
  have "log 2 x < of_int (e + 53)"
    using x up by (simp add: log_less_iff)
  then have k1: "\<lfloor>log 2 x\<rfloor> < e + 53" by (simp only: floor_less_iff)
  from lo show ?thesis
  proof
    assume e': "e = - 1074"
    with k1 have "\<lfloor>log 2 x\<rfloor> - 52 \<le> - 1074" by linarith
    then have "max (\<lfloor>log 2 x\<rfloor> - 52) (- 1074) = - 1074" by (simp only: max_def if_True)
    then show ?thesis using x e' by (simp only: ulp_exponent_def abs_of_pos)
  next
    assume "2 powr of_int (e + 52) \<le> x"
    then have "of_int (e + 52) \<le> log 2 x"
      using x by (simp add: le_log_iff)
    then have "e + 52 \<le> \<lfloor>log 2 x\<rfloor>" by (simp only: le_floor_iff)
    with k1 e show ?thesis using x by (simp add: ulp_exponent_def)
  qed
qed

lemma round_double_idem_pos:
  assumes x: "0 < x"
  shows "round_double (round_double x) = round_double x"
proof -
  define e where "e = ulp_exponent x"
  define m where "m = round_even (x / 2 powr of_int e)"
  let ?u = "2 powr real_of_int e"
  have u: "0 < ?u" by simp
  have e: "- 1074 \<le> e" unfolding e_def by (rule ulp_exponent_ge)
  have rx: "round_double x = of_int m * ?u"
    unfolding m_def e_def by (rule round_double_pos [OF x])
  have "0 \<le> of_int m * ?u" using round_double_nonneg [OF x] rx by simp
  then have m0: "0 \<le> m" using u by (simp add: zero_le_mult_iff)
  have "of_int m * ?u \<le> 2 powr 53 * ?u"
    using round_double_upper [OF x] rx by (simp add: e_def powr_add)
  then have "real_of_int m \<le> 2 powr 53" using u by (simp only: mult_le_cancel_right_pos)
  then have m53: "m \<le> 2 ^ 53" by (simp only: pow53 of_int_le_iff)
  consider "m = 0" | "m = 2 ^ 53" | "0 < m" "m < 2 ^ 53" using m0 m53 by linarith
  then show ?thesis
  proof cases
    case 1
    then show ?thesis by (simp add: rx round_double_0)
  next
    case 2
    then have val: "round_double x = 2 powr of_int (e + 53)"
      by (simp add: rx powr_add)
    have pos: "(0::real) < 2 powr of_int (e + 53)" by simp
    have ex: "ulp_exponent (2 powr of_int (e + 53)) = e + 1"
      using e by (intro ulp_exponent_eqI) (simp_all add: powr_add)
    have "2 powr of_int (e + 53) / 2 powr of_int (e + 1) = (2::real) powr 52"
      by (simp add: powr_diff [symmetric])
    then have "round_even (2 powr of_int (e + 53) / 2 powr of_int (e + 1)) = 2 ^ 52"
      by (simp only: pow53 round_even_int)
    then have "round_double (2 powr of_int (e + 53)) = of_int (2 ^ 52) * 2 powr of_int (e + 1)"
      by (simp only: round_double_pos [OF pos] ex)
    also have "\<dots> = 2 powr of_int (e + 53)" by (simp add: powr_add)
    finally show ?thesis by (simp only: val)
  next
    case 3
    have pos: "0 < of_int m * ?u" using 3 u by simp
    have up: "of_int m * ?u < 2 powr of_int (e + 53)"
    proof -
      have "real_of_int m < of_int (2 ^ 53)" using 3 by (simp only: of_int_less_iff)
      then have "of_int m * ?u < 2 powr 53 * ?u" using u by (simp only: pow53 mult_strict_right_mono)
      then show ?thesis by (simp add: powr_add)
    qed
    have lo: "e = - 1074 \<or> 2 powr of_int (e + 52) \<le> of_int m * ?u"
    proof (cases "e = - 1074")
      case True
      then show ?thesis by simp
    next
      case False
      with e have "- 1074 < ulp_exponent x" by (simp add: e_def)
      from round_double_lower [OF x this] show ?thesis by (simp add: rx e_def)
    qed
    have ex: "ulp_exponent (of_int m * ?u) = e"
      using pos up lo e by (rule ulp_exponent_eqI)
    have "round_even (of_int m * ?u / ?u) = m" by simp
    then have "round_double (of_int m * ?u) = of_int m * ?u"
      by (simp only: round_double_pos [OF pos] ex)
    then show ?thesis by (simp only: rx)
  qed
qed

lemma round_double_idem: "round_double (round_double x) = round_double x"
proof -
  consider "0 < x" | "x = 0" | "0 < - x" by linarith
  then show ?thesis
  proof cases
    case 1
    then show ?thesis by (rule round_double_idem_pos)
  next
    case 2
    then show ?thesis by (simp add: round_double_0)
  next
    case 3
    then have "round_double (round_double (- x)) = round_double (- x)"
      by (rule round_double_idem_pos)
    then show ?thesis by (simp add: round_double_uminus)
  qed
qed

lemma round_double_eval:
  assumes lo: "2 ^ n \<le> \<bar>x\<bar>" and up: "\<bar>x\<bar> < 2 ^ Suc n" and n: "n \<le> 52"
  shows "round_double x = of_int (round_even (x * 2 ^ (52 - n))) / 2 ^ (52 - n)"
proof -
  have "(0::real) < 2 ^ n" by simp
  with lo have ax: "0 < \<bar>x\<bar>" by linarith
  then have x0: "x \<noteq> 0" by simp
  have p: "(2::real) powr of_int (int n - 52) = 1 / 2 ^ (52 - n)"
  proof -
    have "real_of_int (int n - 52) = - real (52 - n)" using n by (simp add: of_nat_diff)
    then have "(2::real) powr of_int (int n - 52) = 2 powr - real (52 - n)" by (simp only:)
    also have "\<dots> = 1 / 2 powr real (52 - n)" by (rule powr_minus_divide)
    also have "\<dots> = 1 / 2 ^ (52 - n)" by (simp only: powr_realpow zero_less_numeral)
    finally show ?thesis .
  qed
  have a: "\<bar>x\<bar> < 2 powr of_int (int n - 52 + 53)"
  proof -
    have "real_of_int (int n - 52 + 53) = real (Suc n)" by simp
    then have "(2::real) powr of_int (int n - 52 + 53) = 2 ^ Suc n"
      by (simp only: powr_realpow zero_less_numeral)
    with up show ?thesis by (simp only:)
  qed
  have b: "2 powr of_int (int n - 52 + 52) \<le> \<bar>x\<bar>"
  proof -
    have "real_of_int (int n - 52 + 52) = real n" by simp
    then have "(2::real) powr of_int (int n - 52 + 52) = 2 ^ n"
      by (simp only: powr_realpow zero_less_numeral)
    with lo show ?thesis by (simp only:)
  qed
  have n': "- 1074 \<le> int n - 52" by simp
  have "ulp_exponent \<bar>x\<bar> = int n - 52"
    using ax a disjI2 [OF b] n' by (rule ulp_exponent_eqI)
  then have e: "ulp_exponent x = int n - 52"
    by (simp only: ulp_exponent_def abs_abs)
  have "round_double x = of_int (round_even (x / (1 / 2 ^ (52 - n)))) * (1 / 2 ^ (52 - n))"
    using x0 by (simp only: round_double_def e p Let_def if_False)
  then show ?thesis by simp
qed

lemma round_even_numeral: "round_even (numeral k) = numeral k"
  using round_even_int [of "numeral k"] by simp

lemma round_double_1: "round_double 1 = 1"
  using round_double_eval [of 0 1] by (simp add: round_even_numeral)

lemma round_double_28_4: "round_double (142 / 5) = 3996944669291315 / 140737488355328"
  using round_double_eval [of 4 "142 / 5"] by (simp add: round_even_def)

section \<open>Properties of the builder\<close>

lemma path_inv_addPoint:
  assumes "path_inv d acc"
  shows "path_inv d (addPoint d m acc c)"
proof -
  obtain ps cur where acc: "acc = (ps, cur)" by (cases acc)
  show ?thesis
  proof (cases "ps = []")
    case True
    with assms acc show ?thesis
      by (simp add: path_inv_def addPoint_def)
  next
    case False
    then have lastps: "ps ! (length ps - 1) = last ps"
      by (simp add: last_conv_nth)
    from assms acc False have cur: "cumulativeDistance (last ps) = cur"
      and zero: "cumulativeDistance (ps ! 0) = 0"
      by (simp_all add: path_inv_def)
    let ?p = "\<lparr>lat = lat c, lng = lng c, mode = m,
               cumulativeDistance = cur + d (latLng (lat (last ps)) (lng (last ps)))
                                            (latLng (lat c) (lng c))\<rparr>"
    have app: "addPoint d m acc c = (ps @ [?p], cumulativeDistance ?p)"
      using False acc lastps by (simp add: addPoint_def Let_def)
    have step: "cumulativeDistance ((ps @ [?p]) ! Suc k) =
          cumulativeDistance ((ps @ [?p]) ! k) +
          d (latLng (lat ((ps @ [?p]) ! k)) (lng ((ps @ [?p]) ! k)))
            (latLng (lat ((ps @ [?p]) ! Suc k)) (lng ((ps @ [?p]) ! Suc k)))"
      if k: "Suc k < length (ps @ [?p])" for k
    proof (cases "Suc k < length ps")
      case True
      with assms acc show ?thesis
        by (simp add: path_inv_def nth_append)
    next
      case False
      with k have kk: "Suc k = length ps" by simp
      then have "k = length ps - 1" by simp
      with kk lastps cur show ?thesis
        by (simp add: nth_append)
    qed
    have "cumulativeDistance ((ps @ [?p]) ! 0) = 0"
      using False zero by (simp add: nth_append)
    with step show ?thesis
      unfolding app path_inv_def by simp
  qed
qed

lemma path_inv_foldl_addPoint:
  "path_inv d acc \<Longrightarrow> path_inv d (foldl (addPoint d m) acc cs)"
  by (induction cs arbitrary: acc) (simp_all add: path_inv_addPoint)

lemma path_inv_addLeg: "path_inv d acc \<Longrightarrow> path_inv d (addLeg d acc leg)"
  by (simp add: addLeg_def path_inv_foldl_addPoint)

lemma path_inv_foldl_addLeg:
  "path_inv d acc \<Longrightarrow> path_inv d (foldl (addLeg d) acc ls)"
  by (induction ls arbitrary: acc) (simp_all add: path_inv_addLeg)

lemma path_inv_buildPath: "path_inv d (buildPath d ls)"
  unfolding buildPath_def
  by (rule path_inv_foldl_addLeg) (simp add: path_inv_def)

lemma shape_addPoint:
  "path_shape (fst (addPoint d m acc c)) = path_shape (fst acc) @ [(lat c, lng c, m)]"
  by (simp add: addPoint_def path_shape_def Let_def)

lemma shape_foldl_addPoint:
  "path_shape (fst (foldl (addPoint d m) acc cs)) =
     path_shape (fst acc) @ map (\<lambda>c. (lat c, lng c, m)) cs"
  by (induction cs arbitrary: acc) (simp_all add: shape_addPoint)

lemma shape_addLeg:
  "path_shape (fst (addLeg d acc leg)) = path_shape (fst acc) @ leg_shape leg"
  by (simp add: addLeg_def leg_shape_def shape_foldl_addPoint)

lemma shape_foldl_addLeg:
  "path_shape (fst (foldl (addLeg d) acc ls)) =
     path_shape (fst acc) @ concat (map leg_shape ls)"
  by (induction ls arbitrary: acc) (simp_all add: shape_addLeg)

lemma shape_buildPath:
  "path_shape (fst (buildPath d ls)) = concat (map leg_shape ls)"
  unfolding buildPath_def shape_foldl_addLeg by (simp add: path_shape_def)

lemma steps_mono:
  fixes f :: "'a \<Rightarrow> real"
  assumes "\<And>k. Suc k < length ps \<Longrightarrow> f (ps ! k) \<le> f (ps ! Suc k)"
  shows "i \<le> j \<Longrightarrow> j < length ps \<Longrightarrow> f (ps ! i) \<le> f (ps ! j)"
proof (induction j)
  case 0
  then show ?case by simp
next
  case (Suc j)
  show ?case
  proof (cases "i = Suc j")
    case True
    then show ?thesis by simp
  next
    case False
    with Suc.prems have "i \<le> j" "j < length ps" by simp_all
    then have "f (ps ! i) \<le> f (ps ! j)" by (rule Suc.IH)
    also have "\<dots> \<le> f (ps ! Suc j)" using assms Suc.prems by simp
    finally show ?thesis .
  qed
qed


lemma buildPath_example: "buildPath planarDistance example_legs = (example_path, 18)"
  by (simp add: buildPath_def addLeg_def addPoint_def example_legs_def example_path_def
      planarDistance_def latLng_def)

section \<open>Properties of the interpolator\<close>

lemma findIndex_bounds: "- 1 \<le> findIndex P xs \<and> findIndex P xs < int (length xs)"
  by (induction xs) (simp_all add: Let_def)

lemma findIndex_sat: "0 \<le> findIndex P xs \<Longrightarrow> P (xs ! nat (findIndex P xs))"
proof (induction xs)
  case Nil
  then show ?case by simp
next
  case (Cons x xs)
  show ?case
  proof (cases "P x")
    case True
    then show ?thesis by simp
  next
    case False
    with Cons.prems have r: "findIndex P xs \<noteq> - 1"
      by (auto simp: Let_def)
    with findIndex_bounds [of P xs] have nn: "0 \<le> findIndex P xs" by simp
    then have "nat (findIndex P xs + 1) = Suc (nat (findIndex P xs))" by simp
    with False r Cons.IH [OF nn] show ?thesis by (simp add: Let_def)
  qed
qed

lemma findIndex_least: "k < nat (findIndex P xs) \<Longrightarrow> \<not> P (xs ! k)"
proof (induction xs arbitrary: k)
  case Nil
  then show ?case by simp
next
  case (Cons x xs)
  show ?case
  proof (cases "P x")
    case True
    with Cons.prems show ?thesis by simp
  next
    case False
    show ?thesis
    proof (cases "findIndex P xs = - 1")
      case True
      with False Cons.prems show ?thesis by (simp add: Let_def)
    next
      case r: False
      with findIndex_bounds [of P xs] have nn: "0 \<le> findIndex P xs" by simp
      then have suc: "nat (findIndex P xs + 1) = Suc (nat (findIndex P xs))" by simp
      show ?thesis
      proof (cases k)
        case 0
        with False show ?thesis by simp
      next
        case (Suc k')
        with Cons.prems False r suc have "k' < nat (findIndex P xs)"
          by (simp add: Let_def)
        then have "\<not> P (xs ! k')" by (rule Cons.IH)
        with Suc show ?thesis by simp
      qed
    qed
  qed
qed

lemma findIndex_found: "\<exists>x\<in>set xs. P x \<Longrightarrow> 0 \<le> findIndex P xs"
proof (induction xs)
  case Nil
  then show ?case by simp
next
  case (Cons x xs)
  show ?case
  proof (cases "P x")
    case True
    then show ?thesis by simp
  next
    case False
    with Cons.prems have "\<exists>x\<in>set xs. P x" by simp
    then have "0 \<le> findIndex P xs" by (rule Cons.IH)
    with False show ?thesis by (simp add: Let_def)
  qed
qed

lemma nextIdx_bounds:
  assumes "2 \<le> length path"
  shows "1 \<le> nextIdx path d \<and> nextIdx path d < int (length path)"
  using assms findIndex_bounds [of "\<lambda>p. d \<le> cumulativeDistance p" path]
  by (auto simp: nextIdx_def Let_def)

lemma segmentRatio_value:
  "segmentRatio p1 p2 d =
     Some (if cumulativeDistance p2 - cumulativeDistance p1 > 0
           then (d - cumulativeDistance p1) / (cumulativeDistance p2 - cumulativeDistance p1)
           else 0)"
  by (simp add: segmentRatio_def js_div_def Let_def)

lemma interpolate_segment:
  assumes len: "2 \<le> length path"
    and i: "nextIdx path d = int (Suc k)"
    and r: "segmentRatio (path ! k) (path ! Suc k) d = Some r"
  shows "interpolate path d =
     Inr (\<lparr>lat = lat (path ! k) + (lat (path ! Suc k) - lat (path ! k)) * r,
           lng = lng (path ! k) + (lng (path ! Suc k) - lng (path ! k)) * r,
           mode = mode (path ! k), cumulativeDistance = d\<rparr>,
          lng (path ! Suc k) < lng (path ! k))"
proof -
  from nextIdx_bounds [OF len, of d] i have k: "Suc k < length path" by simp
  have n1: "nat (int (Suc k) - 1) = k" and n2: "nat (int (Suc k)) = Suc k"
    by simp_all
  have "0 \<le> int (Suc k) - 1" "int (Suc k) - 1 < int (length path)"
    "0 \<le> int (Suc k)" "int (Suc k) < int (length path)"
    using k by simp_all
  then have "elemAt path (int (Suc k) - 1) = Some (path ! k)"
    and "elemAt path (int (Suc k)) = Some (path ! Suc k)"
    unfolding elemAt_def n1 n2 by simp_all
  with i r show ?thesis
    by (simp add: interpolate_def Let_def)
qed

lemma nextIdx_Suc:
  assumes "2 \<le> length path"
  shows "\<exists>k. nextIdx path d = int (Suc k) \<and> Suc k < length path"
proof -
  from nextIdx_bounds [OF assms, of d]
  have "1 \<le> nextIdx path d" "nextIdx path d < int (length path)" by simp_all
  then have "nextIdx path d = int (Suc (nat (nextIdx path d - 1)))"
    and "Suc (nat (nextIdx path d - 1)) < length path" by simp_all
  then show ?thesis by blast
qed

lemma interpolate_total:
  assumes "2 \<le> length path"
  shows "\<exists>point isFlipped. interpolate path d = Inr (point, isFlipped)"
proof -
  from nextIdx_Suc [OF assms, of d] obtain k where "nextIdx path d = int (Suc k)" by blast
  from interpolate_segment [OF assms this segmentRatio_value] show ?thesis by blast
qed

lemma nextIdx_first:
  assumes "2 \<le> length path" "d \<le> cumulativeDistance (path ! 0)"
  shows "nextIdx path d = 1"
proof -
  from assms obtain p qs where "path = p # qs" by (cases path) simp_all
  with assms show ?thesis by (simp add: nextIdx_def)
qed

lemma nextIdx_at:
  assumes sk: "Suc k < length path"
    and below: "\<forall>j\<le>k. cumulativeDistance (path ! j) < d"
    and reach: "d \<le> cumulativeDistance (path ! Suc k)"
  shows "nextIdx path d = int (Suc k)"
proof -
  let ?P = "\<lambda>p. d \<le> cumulativeDistance p"
  let ?f = "findIndex ?P path"
  have "\<exists>x\<in>set path. ?P x" using sk reach nth_mem by blast
  then have nn: "0 \<le> ?f" by (rule findIndex_found)
  have sat: "?P (path ! nat ?f)" using findIndex_sat [OF nn] .
  have "\<not> nat ?f \<le> k" using sat below by (auto simp: not_le)
  moreover have "\<not> Suc k < nat ?f"
    using findIndex_least [of "Suc k" ?P path] reach by blast
  ultimately have "nat ?f = Suc k" by simp
  with nn have "?f = int (Suc k)" by linarith
  then show ?thesis by (simp add: nextIdx_def Let_def)
qed

lemma example_interpolate_12:
  "interpolate example_path 12 =
     Inr (\<lparr>lat = 1, lng = 9, mode = TRAIN, cumulativeDistance = 12\<rparr>, True)"
  by (simp add: interpolate_def nextIdx_def elemAt_def segmentRatio_def js_div_def
      example_path_def Let_def)

section \<open>Properties of the engine\<close>

lemma example_loaded_value:
  "example_loaded =
     \<lparr>vehicleMarkerRef = Some \<lparr>position = \<lparr>lat = 0, lng = 0\<rparr>, icon = DivIcon CAR False\<rparr>,
      finishedSegmentsLayerRef = Some [],
      currentSegmentPolylineRef = Some \<lparr>latlngs = [], color = ''#0099ff''\<rparr>,
      currentSegmentPointsRef = [],
      pathDataRef = example_path, totalDistanceRef = 18, framePending = False,
      startTimeRef = 0, isAnimatingRef = False, startZoomRef = 0,
      prevModeRef = CAR, prevFlippedRef = False,
      camera = FitBounds \<lparr>lat = - 1, lng = - 1\<rparr> \<lparr>lat = 5, lng = 11\<rparr>,
      completions = 0\<rparr>"
  unfolding example_loaded_def routeEffect_def example_route_def
  by (simp add: buildPath_example initialMapContent_def Let_def latLng_def
      createLeafletIcon_def) (simp add: example_path_def)

lemma example_playing_value:
  "example_playing =
     \<lparr>vehicleMarkerRef = Some \<lparr>position = \<lparr>lat = 0, lng = 0\<rparr>, icon = DivIcon CAR False\<rparr>,
      finishedSegmentsLayerRef = Some [],
      currentSegmentPolylineRef = Some \<lparr>latlngs = [], color = ''#0099ff''\<rparr>,
      currentSegmentPointsRef = [],
      pathDataRef = example_path, totalDistanceRef = 18, framePending = True,
      startTimeRef = 1000, isAnimatingRef = True, startZoomRef = 5,
      prevModeRef = CAR, prevFlippedRef = False,
      camera = FitBounds \<lparr>lat = - 1, lng = - 1\<rparr> \<lparr>lat = 5, lng = 11\<rparr>,
      completions = 0\<rparr>"
  unfolding example_playing_def example_loaded_value animationEffect_def
  by (simp add: example_path_def)

lemma clock_consts: "durationMs = 90000" "zoomDuration = 3000" "FOLLOW_ZOOM_LEVEL = 10"
  by (simp_all add: durationMs_def ANIMATION_DURATION_SECONDS_def zoomDuration_def
      FOLLOW_ZOOM_LEVEL_def)

lemma example_interpolate_9:
  "interpolate example_path 9 =
     Inr (\<lparr>lat = 0, lng = 9, mode = CAR, cumulativeDistance = 9\<rparr>, False)"
  by (simp add: interpolate_def nextIdx_def elemAt_def segmentRatio_def js_div_def
      example_path_def Let_def)

lemma example_first_tick: "animate example_playing 46000 = Inr example_midway"
  unfolding example_playing_value animate_def
  by (simp add: rawProgress_def targetDist_def clock_consts currentZoom_def
      example_interpolate_9 updateMapState_def updateMode_def updateFlipped_def
      growTrail_def latLng_def Let_def example_midway_def)

lemma rawProgress_ge_1: "1 \<le> rawProgress e \<longleftrightarrow> 90000 \<le> e"
  by (simp add: rawProgress_def clock_consts)

lemma rawProgress_eq_1: "90000 \<le> e \<Longrightarrow> rawProgress e = 1"
  by (simp add: rawProgress_def clock_consts)

lemma updateMapState_frame:
  "pathDataRef (updateMapState st point isFinal isFlipped pos z) = pathDataRef st"
  "totalDistanceRef (updateMapState st point isFinal isFlipped pos z) = totalDistanceRef st"
  "startTimeRef (updateMapState st point isFinal isFlipped pos z) = startTimeRef st"
  "startZoomRef (updateMapState st point isFinal isFlipped pos z) = startZoomRef st"
  "completions (updateMapState st point isFinal isFlipped pos z) = completions st"
  "framePending (updateMapState st point isFinal isFlipped pos z) = framePending st"
  "isAnimatingRef (updateMapState st point isFinal isFlipped pos z) = isAnimatingRef st"
  by (simp_all add: updateMapState_def updateMode_def updateFlipped_def growTrail_def Let_def)

lemma updateMapState_ready:
  "ready st \<Longrightarrow> ready (updateMapState st point isFinal isFlipped pos z)"
  by (auto simp: ready_def updateMapState_def updateMode_def updateFlipped_def
      growTrail_def Let_def)

lemma updateMapState_position:
  "ready st \<Longrightarrow>
     map_option position (vehicleMarkerRef (updateMapState st point isFinal isFlipped pos z))
       = Some pos"
  by (auto simp: ready_def updateMapState_def updateMode_def updateFlipped_def
      growTrail_def Let_def)

lemma updateMapState_camera:
  "ready st \<Longrightarrow>
     camera (updateMapState st point isFinal isFlipped pos z)
       = (if isFinal then camera st else SetView pos z)"
  by (auto simp: ready_def updateMapState_def updateMode_def updateFlipped_def
      growTrail_def Let_def)

lemma elemAt_last: "xs \<noteq> [] \<Longrightarrow> elemAt xs (int (length xs) - 1) = Some (last xs)"
proof -
  assume ne: "xs \<noteq> []"
  then have "nat (int (length xs) - 1) = length xs - 1" by simp
  moreover have "0 \<le> int (length xs) - 1" using ne by (cases xs) simp_all
  ultimately show ?thesis using ne by (simp add: elemAt_def last_conv_nth)
qed

lemma animate_final:
  assumes rdy: "ready st" and ne: "pathDataRef st \<noteq> []"
    and reach: "90000 \<le> t - startTimeRef st"
  shows "\<exists>st'. animate st t = Inr st' \<and> completions st' = completions st + 1 \<and>
           \<not> framePending st' \<and> \<not> isAnimatingRef st' \<and>
           map_option position (vehicleMarkerRef st') =
             Some (latLng (lat (last (pathDataRef st))) (lng (last (pathDataRef st)))) \<and>
           camera st' = camera st \<and> pathDataRef st' = pathDataRef st"
proof -
  let ?lp = "last (pathDataRef st)"
  let ?u = "updateMapState st ?lp True False (latLng (lat ?lp) (lng ?lp)) FOLLOW_ZOOM_LEVEL"
  have "animate st t =
      Inr (?u\<lparr>completions := completions ?u + 1, isAnimatingRef := False,
              framePending := False\<rparr>)"
    using reach elemAt_last [OF ne]
    by (simp add: animate_def rawProgress_ge_1 Let_def)
  moreover have "map_option position (vehicleMarkerRef ?u) =
      Some (latLng (lat ?lp) (lng ?lp))"
    using rdy by (rule updateMapState_position)
  moreover have "camera ?u = camera st"
    using rdy by (simp add: updateMapState_camera)
  ultimately show ?thesis
    by (simp add: updateMapState_frame)
qed

lemma animate_step:
  assumes len: "2 \<le> length (pathDataRef st)"
    and before: "t - startTimeRef st < 90000"
  shows "\<exists>point isFlipped.
           interpolate (pathDataRef st)
             (targetDist (totalDistanceRef st) (t - startTimeRef st)) = Inr (point, isFlipped) \<and>
           animate st t =
             Inr ((updateMapState st point False isFlipped (latLng (lat point) (lng point))
                     (currentZoom (startZoomRef st) (t - startTimeRef st)))
                  \<lparr>framePending := True\<rparr>)"
proof -
  from interpolate_total [OF len] obtain point isFlipped
    where i: "interpolate (pathDataRef st)
             (targetDist (totalDistanceRef st) (t - startTimeRef st)) = Inr (point, isFlipped)"
    by blast
  have "\<not> 1 \<le> rawProgress (t - startTimeRef st)"
    using before by (simp add: rawProgress_ge_1)
  with i have "animate st t =
             Inr ((updateMapState st point False isFlipped (latLng (lat point) (lng point))
                     (currentZoom (startZoomRef st) (t - startTimeRef st)))
                  \<lparr>framePending := True\<rparr>)"
    by (simp add: animate_def Let_def)
  with i show ?thesis by blast
qed

lemma run_idle: "\<not> framePending st \<Longrightarrow> run st ts = Inr st"
  by (cases ts) simp_all

lemma routeEffect_ready:
  "pathDataRef (routeEffect d st0 rd) \<noteq> [] \<Longrightarrow> ready (routeEffect d st0 rd)"
  by (cases rd) (auto simp: routeEffect_def ready_def Let_def)

lemma routeEffect_frame:
  "completions (routeEffect d st0 rd) = completions st0"
  "\<not> isAnimatingRef (routeEffect d st0 rd)"
  by (cases rd; simp add: routeEffect_def Let_def)+

lemma animationEffect_start:
  assumes "2 \<le> length (pathDataRef st)" "\<not> isAnimatingRef st"
  shows "framePending (animationEffect st True now z)"
    "startTimeRef (animationEffect st True now z) = now"
    "startZoomRef (animationEffect st True now z) = z"
    "pathDataRef (animationEffect st True now z) = pathDataRef st"
    "totalDistanceRef (animationEffect st True now z) = totalDistanceRef st"
    "completions (animationEffect st True now z) = completions st"
    "ready st \<Longrightarrow> ready (animationEffect st True now z)"
  using assms by (auto simp: animationEffect_def ready_def)

section \<open>Properties of the rounded arithmetic and of a run\<close>











lemma segmentRatio_rounded_exact:
  "segmentRatio_rounded (\<lambda>x. x) p1 p2 d = segmentRatio p1 p2 d"
  by (simp add: segmentRatio_rounded_def segmentRatio_def js_div_def Let_def)

lemma interpolate_rounded_exact: "interpolate_rounded (\<lambda>x. x) path d = interpolate path d"
  by (simp add: interpolate_rounded_def interpolate_def segmentRatio_rounded_exact Let_def
      split: option.splits)





lemma interpolate_rounded_segment:
  assumes len: "2 \<le> length path"
    and i: "nextIdx path d = int (Suc k)"
    and r: "segmentRatio_rounded rnd (path ! k) (path ! Suc k) d = Some r"
  shows "interpolate_rounded rnd path d =
     Inr (\<lparr>lat = rnd (lat (path ! k) + rnd (rnd (lat (path ! Suc k) - lat (path ! k)) * r)),
           lng = rnd (lng (path ! k) + rnd (rnd (lng (path ! Suc k) - lng (path ! k)) * r)),
           mode = mode (path ! k), cumulativeDistance = d\<rparr>,
          lng (path ! Suc k) < lng (path ! k))"
proof -
  from nextIdx_bounds [OF len, of d] i have k: "Suc k < length path" by simp
  have n1: "nat (int (Suc k) - 1) = k" and n2: "nat (int (Suc k)) = Suc k"
    by simp_all
  have "0 \<le> int (Suc k) - 1" "int (Suc k) - 1 < int (length path)"
    "0 \<le> int (Suc k)" "int (Suc k) < int (length path)"
    using k by simp_all
  then have "elemAt path (int (Suc k) - 1) = Some (path ! k)"
    and "elemAt path (int (Suc k)) = Some (path ! Suc k)"
    unfolding elemAt_def n1 n2 by simp_all
  with i r show ?thesis
    by (simp add: interpolate_rounded_def Let_def)
qed

lemma round_double_100: "round_double 100 = 100"
  using round_double_eval [of 6 100] by (simp add: round_even_numeral)

lemma round_double_span:
  "round_double (11878244017189683 / 140737488355328) = 2969561004297421 / 35184372088832"
  using round_double_eval [of 6 "11878244017189683 / 140737488355328"]
  by (simp add: round_even_def)

lemma round_double_span_fixed:
  "round_double (2969561004297421 / 35184372088832) = 2969561004297421 / 35184372088832"
  using round_double_idem [of "11878244017189683 / 140737488355328"]
  by (simp only: round_double_span)

lemma round_double_overshoot:
  "round_double (999236167322829 / 35184372088832) = 999236167322829 / 35184372088832"
  using round_double_eval [of 4 "999236167322829 / 35184372088832"]
  by (simp add: round_even_numeral)

lemma overshoot_points:
  "overshoot_path ! 0 = \<lparr>lat = - 56, lng = 0, mode = CAR, cumulativeDistance = 0\<rparr>"
  "overshoot_path ! Suc 0 =
     \<lparr>lat = 3996944669291315 / 140737488355328, lng = 0, mode = CAR,
      cumulativeDistance = 100\<rparr>"
  by (simp_all add: overshoot_path_def)

lemma segmentRatio_overshoot:
  "segmentRatio_rounded round_double (overshoot_path ! 0) (overshoot_path ! Suc 0) 100 = Some 1"
  unfolding overshoot_points
  by (simp add: segmentRatio_rounded_def js_div_def round_double_100 round_double_1 Let_def)

lemma interpolate_overshoot:
  "interpolate_rounded round_double overshoot_path 100 =
     Inr (\<lparr>lat = 999236167322829 / 35184372088832, lng = 0, mode = CAR,
           cumulativeDistance = 100\<rparr>, False)"
proof -
  have len: "2 \<le> length overshoot_path" by (simp add: overshoot_path_def)
  have i: "nextIdx overshoot_path 100 = int (Suc 0)"
    by (simp add: nextIdx_def overshoot_path_def)
  show ?thesis
    unfolding interpolate_rounded_segment [OF len i segmentRatio_overshoot] overshoot_points
    by (simp add: round_double_0 round_double_span round_double_span_fixed
        round_double_overshoot)
qed

lemma animate_step_playing:
  assumes rdy: "ready st" and len: "2 \<le> length (pathDataRef st)"
    and before: "t - startTimeRef st < 90000"
  shows "\<exists>st'. animate st t = Inr st' \<and> ready st' \<and> framePending st' \<and>
           isAnimatingRef st' = isAnimatingRef st \<and>
           pathDataRef st' = pathDataRef st \<and> startTimeRef st' = startTimeRef st \<and>
           completions st' = completions st"
proof -
  from animate_step [OF len before] obtain point isFlipped where
    a: "animate st t =
             Inr ((updateMapState st point False isFlipped (latLng (lat point) (lng point))
                     (currentZoom (startZoomRef st) (t - startTimeRef st)))
                  \<lparr>framePending := True\<rparr>)"
    by blast
  have "ready (updateMapState st point False isFlipped (latLng (lat point) (lng point))
                     (currentZoom (startZoomRef st) (t - startTimeRef st)))"
    using rdy by (rule updateMapState_ready)
  then have "ready ((updateMapState st point False isFlipped (latLng (lat point) (lng point))
                     (currentZoom (startZoomRef st) (t - startTimeRef st)))
                  \<lparr>framePending := True\<rparr>)"
    by (simp add: ready_def)
  with a show ?thesis by (simp add: updateMapState_frame)
qed

lemma run_before_end:
  assumes "ready st" "2 \<le> length (pathDataRef st)" "framePending st"
    and "\<forall>t\<in>set ts. t - startTimeRef st < 90000"
  shows "\<exists>st'. (\<forall>rest. run st (ts @ rest) = run st' rest) \<and> ready st' \<and> framePending st' \<and>
           isAnimatingRef st' = isAnimatingRef st \<and>
           pathDataRef st' = pathDataRef st \<and> startTimeRef st' = startTimeRef st \<and>
           completions st' = completions st"
  using assms
proof (induction ts arbitrary: st)
  case Nil
  then show ?case by auto
next
  case (Cons t ts)
  from Cons.prems have before: "t - startTimeRef st < 90000" by simp
  from animate_step_playing [OF Cons.prems(1,2) before] obtain st1 where
    a: "animate st t = Inr st1" and r: "ready st1" and f: "framePending st1"
    and i: "isAnimatingRef st1 = isAnimatingRef st"
    and p: "pathDataRef st1 = pathDataRef st" and s: "startTimeRef st1 = startTimeRef st"
    and c: "completions st1 = completions st"
    by blast
  have "\<exists>st'. (\<forall>rest. run st1 (ts @ rest) = run st' rest) \<and> ready st' \<and> framePending st' \<and>
           isAnimatingRef st' = isAnimatingRef st1 \<and>
           pathDataRef st' = pathDataRef st1 \<and> startTimeRef st' = startTimeRef st1 \<and>
           completions st' = completions st1"
    using r f p s Cons.prems by (intro Cons.IH) simp_all
  moreover have "run st ((t # ts) @ rest) = run st1 (ts @ rest)" for rest
    using Cons.prems(3) a by simp
  ultimately show ?case using p s c i by auto
qed

lemma segmentRatio_rounded_total: "segmentRatio_rounded rnd p1 p2 d \<noteq> None"
  by (simp add: segmentRatio_rounded_def js_div_def Let_def)

section \<open>The claims\<close>

text \<open>
  Claim C7. For every path built from a list of legs that has at least two points,
  interpolating at the target distance 0 gives exactly the latitude and longitude of
  the first path point, with the mode of that point as the active mode; the mode is
  the first leg's whenever the first leg has a point.
\<close>

theorem interpolate_at_zero:
  assumes ps: "ps = fst (buildPath distanceTo ls)"
    and len: "2 \<le> length ps"
  shows "interpolate ps 0 =
           Inr (\<lparr>lat = lat (ps ! 0), lng = lng (ps ! 0), mode = mode (ps ! 0),
                 cumulativeDistance = 0\<rparr>, lng (ps ! 1) < lng (ps ! 0)) \<and>
         (\<forall>l ls'. ls = l # ls' \<and> coordinates l \<noteq> [] \<longrightarrow> mode (ps ! 0) = leg_mode l)"
proof -
  from len have ne: "ps \<noteq> []" by auto
  have zero: "cumulativeDistance (ps ! 0) = 0"
    using path_inv_buildPath [of distanceTo ls] ne ps by (simp add: path_inv_def)
  have idx: "nextIdx ps 0 = int (Suc 0)"
    using nextIdx_first [OF len, of 0] zero by simp
  have ratio: "segmentRatio (ps ! 0) (ps ! Suc 0) 0 = Some 0"
    using zero by (simp add: segmentRatio_value)
  have val: "interpolate ps 0 =
           Inr (\<lparr>lat = lat (ps ! 0), lng = lng (ps ! 0), mode = mode (ps ! 0),
                 cumulativeDistance = 0\<rparr>, lng (ps ! 1) < lng (ps ! 0))"
    using interpolate_segment [OF len idx ratio] by simp
  have first: "mode (ps ! 0) = leg_mode l" if "ls = l # ls'" "coordinates l \<noteq> []" for l ls'
  proof -
    from that obtain c cs where "coordinates l = c # cs" by (cases "coordinates l") simp_all
    moreover have "path_shape ps = concat (map leg_shape ls)"
      using ps by (simp add: shape_buildPath)
    ultimately have "path_shape ps = (lat c, lng c, leg_mode l) #
        map (\<lambda>c. (lat c, lng c, leg_mode l)) cs @ concat (map leg_shape ls')"
      using that by (simp add: leg_shape_def)
    then show ?thesis by (cases ps) (simp_all add: path_shape_def)
  qed
  from val first show ?thesis by blast
qed

theorem interpolate_at_zero_witness:
  "interpolate (fst (buildPath planarDistance example_legs)) 0 =
     Inr (\<lparr>lat = 0, lng = 0, mode = CAR, cumulativeDistance = 0\<rparr>, False)
   \<and> leg_mode (hd example_legs) = CAR"
proof -
  let ?ps = "fst (buildPath planarDistance example_legs)"
  have ps: "?ps = example_path" by (simp add: buildPath_example)
  have len: "2 \<le> length ?ps" unfolding ps by (simp add: example_path_def)
  from interpolate_at_zero [OF refl len]
  have "interpolate ?ps 0 =
           Inr (\<lparr>lat = lat (?ps ! 0), lng = lng (?ps ! 0), mode = mode (?ps ! 0),
                 cumulativeDistance = 0\<rparr>, lng (?ps ! 1) < lng (?ps ! 0))"
    by blast
  then have "interpolate ?ps 0 =
     Inr (\<lparr>lat = 0, lng = 0, mode = CAR, cumulativeDistance = 0\<rparr>, False)"
    unfolding ps by (simp add: example_path_def)
  then show ?thesis by (simp add: example_legs_def)
qed

text \<open>
  Claim C8. In every interpolation step over the segment from p1 to p2, the direction
  flag ("moving west") is true exactly when the longitude of p2 is strictly less than
  the longitude of p1; with equal longitudes it is false.
\<close>

theorem direction_flag:
  assumes "interpolate path d = Inr (point, isFlipped)"
  shows "\<exists>p1 p2. elemAt path (nextIdx path d - 1) = Some p1 \<and>
                 elemAt path (nextIdx path d) = Some p2 \<and>
                 (isFlipped \<longleftrightarrow> lng p2 < lng p1) \<and>
                 (lng p2 = lng p1 \<longrightarrow> \<not> isFlipped)"
  using assms
  by (auto simp: interpolate_def Let_def split: option.splits)

theorem direction_flag_witness:
  "\<exists>p1 p2. elemAt example_path (nextIdx example_path 12 - 1) = Some p1 \<and>
           elemAt example_path (nextIdx example_path 12) = Some p2 \<and>
           lng p2 < lng p1"
  using direction_flag [OF example_interpolate_12] by auto

text \<open>
  Claim C1, as stated, fails. In the example route the car leg ends and the train leg
  starts at the point (0, 10), at 10 metres; interpolating at exactly 10 selects the
  car leg's last step with ratio 1 and keeps the mode of the car leg.
\<close>

theorem boundary_mode_counterexample:
  "fst (buildPath planarDistance example_legs) = example_path \<and>
   cumulativeDistance (example_path ! 1) = 10 \<and>
   cumulativeDistance (example_path ! 2) = 10 \<and>
   mode (example_path ! 1) = CAR \<and>
   mode (example_path ! 2) = TRAIN \<and>
   interpolate example_path 10 =
     Inr (\<lparr>lat = 0, lng = 10, mode = CAR, cumulativeDistance = 10\<rparr>, False)"
  by (simp add: buildPath_example)
     (simp add: interpolate_def nextIdx_def elemAt_def segmentRatio_def js_div_def
        example_path_def Let_def)

text \<open>
  Claim C2, as stated, fails. Half-way through the example the live polyline holds one
  point and the recorded mode is the car's; the next tick, at time 61000, interpolates
  the point (1, 9) on the train leg. After it the live polyline holds that position
  twice, not once: the reset to the single position is followed by the push that ends
  every update.
\<close>

theorem mode_change_counterexample:
  "prevModeRef example_midway = CAR \<and>
   currentSegmentPointsRef
     (updateMapState example_midway
        \<lparr>lat = 1, lng = 9, mode = TRAIN, cumulativeDistance = 12\<rparr> False True
        \<lparr>lat = 1, lng = 9\<rparr> 10)
     = [\<lparr>lat = 1, lng = 9\<rparr>, \<lparr>lat = 1, lng = 9\<rparr>] \<and>
   animate example_midway 61000 =
     Inr ((updateMapState example_midway
        \<lparr>lat = 1, lng = 9, mode = TRAIN, cumulativeDistance = 12\<rparr> False True
        \<lparr>lat = 1, lng = 9\<rparr> 10)\<lparr>framePending := True\<rparr>)"
  by (simp add: example_midway_def animate_def rawProgress_def targetDist_def clock_consts
      currentZoom_def example_interpolate_12 updateMapState_def updateMode_def
      updateFlipped_def growTrail_def latLng_def Let_def)

text \<open>
  Claim C2, amended. On every update in which the active mode differs from the recorded
  mode (the marker and the layers existing, as they do once a route with a point is
  loaded), the live points are frozen as a trail segment in the colour of the previous
  mode, unless there are none; right after the update the live polyline holds the new
  interpolated position and nothing else, twice (once from the reset and once from the
  push that ends every update), in the colour of the new mode, which is now the
  recorded mode.
\<close>

theorem mode_change_freezes_trail:
  assumes mk: "vehicleMarkerRef st = Some mk"
    and pl: "currentSegmentPolylineRef st = Some pl"
    and layers: "finishedSegmentsLayerRef st = Some layers"
    and change: "mode point \<noteq> prevModeRef st"
    and st': "st' = updateMapState st point isFinal isFlipped pos z"
  shows "finishedSegmentsLayerRef st' =
           Some (if currentSegmentPointsRef st = [] then layers
                 else layers @ [\<lparr>latlngs = currentSegmentPointsRef st,
                                  color = COLORS (prevModeRef st)\<rparr>]) \<and>
         currentSegmentPointsRef st' = [pos, pos] \<and>
         set (currentSegmentPointsRef st') = {pos} \<and>
         currentSegmentPolylineRef st' =
           Some \<lparr>latlngs = [pos, pos], color = COLORS (mode point)\<rparr> \<and>
         prevModeRef st' = mode point"
  using assms
  by (simp add: updateMapState_def updateMode_def updateFlipped_def growTrail_def Let_def)

theorem mode_change_freezes_trail_witness:
  "finishedSegmentsLayerRef
     (updateMapState example_midway
        \<lparr>lat = 1, lng = 9, mode = TRAIN, cumulativeDistance = 12\<rparr> False True
        \<lparr>lat = 1, lng = 9\<rparr> 10)
     = Some [\<lparr>latlngs = [\<lparr>lat = 0, lng = 9\<rparr>], color = ''#0099ff''\<rparr>] \<and>
   currentSegmentPolylineRef
     (updateMapState example_midway
        \<lparr>lat = 1, lng = 9, mode = TRAIN, cumulativeDistance = 12\<rparr> False True
        \<lparr>lat = 1, lng = 9\<rparr> 10)
     = Some \<lparr>latlngs = [\<lparr>lat = 1, lng = 9\<rparr>, \<lparr>lat = 1, lng = 9\<rparr>], color = ''#22c55e''\<rparr>"
proof -
  have h1: "vehicleMarkerRef example_midway =
      Some \<lparr>position = \<lparr>lat = 0, lng = 9\<rparr>, icon = DivIcon CAR False\<rparr>"
    and h2: "currentSegmentPolylineRef example_midway =
      Some \<lparr>latlngs = [\<lparr>lat = 0, lng = 9\<rparr>], color = ''#0099ff''\<rparr>"
    and h3: "finishedSegmentsLayerRef example_midway = Some []"
    and h4: "mode \<lparr>lat = 1, lng = 9, mode = TRAIN, cumulativeDistance = 12\<rparr>
               \<noteq> prevModeRef example_midway"
    by (simp_all add: example_midway_def)
  from mode_change_freezes_trail [OF h1 h2 h3 h4 refl, of False True "\<lparr>lat = 1, lng = 9\<rparr>" 10]
  show ?thesis by (simp add: example_midway_def)
qed

text \<open>
  Claim C5. The duration of the playback is the constant 90000 milliseconds, whatever
  the route. On every tick the raw progress is the smaller of elapsed / 90000 and 1,
  and the target distance is the total distance times the raw progress: it is linear
  in the elapsed time up to the duration, with no easing. A tick before the end sets
  the vehicle on the point interpolated at that distance.
\<close>

theorem clock_linear:
  "durationMs = 90000 \<and>
   rawProgress elapsed = min (elapsed / durationMs) 1 \<and>
   targetDist totalD elapsed = totalD * rawProgress elapsed \<and>
   (elapsed \<le> 90000 \<longrightarrow> targetDist totalD elapsed = totalD * (elapsed / 90000)) \<and>
   (ready st \<and> 2 \<le> length (pathDataRef st) \<and> time - startTimeRef st < 90000 \<longrightarrow>
      (\<exists>point isFlipped st'.
         interpolate (pathDataRef st)
           (totalDistanceRef st * ((time - startTimeRef st) / 90000)) = Inr (point, isFlipped) \<and>
         animate st time = Inr st' \<and>
         map_option position (vehicleMarkerRef st') = Some (latLng (lat point) (lng point))))"
proof -
  have lin: "targetDist totalD e = totalD * (e / 90000)" if "e \<le> 90000" for e totalD
    using that by (simp add: targetDist_def rawProgress_def clock_consts)
  have tick: "\<exists>point isFlipped st'.
         interpolate (pathDataRef st)
           (totalDistanceRef st * ((time - startTimeRef st) / 90000)) = Inr (point, isFlipped) \<and>
         animate st time = Inr st' \<and>
         map_option position (vehicleMarkerRef st') = Some (latLng (lat point) (lng point))"
    if rdy: "ready st" and len: "2 \<le> length (pathDataRef st)"
      and before: "time - startTimeRef st < 90000"
  proof -
    from animate_step [OF len before] obtain point isFlipped where
      i: "interpolate (pathDataRef st)
             (targetDist (totalDistanceRef st) (time - startTimeRef st)) = Inr (point, isFlipped)"
      and a: "animate st time =
             Inr ((updateMapState st point False isFlipped (latLng (lat point) (lng point))
                     (currentZoom (startZoomRef st) (time - startTimeRef st)))
                  \<lparr>framePending := True\<rparr>)"
      by blast
    from before have "targetDist (totalDistanceRef st) (time - startTimeRef st) =
        totalDistanceRef st * ((time - startTimeRef st) / 90000)"
      by (intro lin) simp
    with i have "interpolate (pathDataRef st)
           (totalDistanceRef st * ((time - startTimeRef st) / 90000)) = Inr (point, isFlipped)"
      by simp
    moreover have "map_option position (vehicleMarkerRef
        ((updateMapState st point False isFlipped (latLng (lat point) (lng point))
                     (currentZoom (startZoomRef st) (time - startTimeRef st)))
                  \<lparr>framePending := True\<rparr>)) = Some (latLng (lat point) (lng point))"
      using updateMapState_position [OF rdy] by simp
    ultimately show ?thesis using a by blast
  qed
  show ?thesis
    using lin tick by (simp add: clock_consts targetDist_def rawProgress_def)
qed

theorem clock_linear_witness:
  "targetDist 18 60000 = 12 \<and>
   (\<exists>point isFlipped st'.
      interpolate (pathDataRef example_midway) 12 = Inr (point, isFlipped) \<and>
      animate example_midway 61000 = Inr st' \<and>
      map_option position (vehicleMarkerRef st') = Some (latLng (lat point) (lng point)))"
proof -
  have h1: "(60000::real) \<le> 90000" by simp
  have h2: "ready example_midway \<and> 2 \<le> length (pathDataRef example_midway) \<and>
      61000 - startTimeRef example_midway < 90000"
    by (simp add: ready_def example_midway_def example_path_def)
  have e: "totalDistanceRef example_midway * ((61000 - startTimeRef example_midway) / 90000) = 12"
    by (simp add: example_midway_def)
  from clock_linear [of 60000 18 example_midway 61000] h1
  have "targetDist 18 60000 = 18 * (60000 / 90000)" by blast
  then have "targetDist 18 60000 = 12" by simp
  moreover from clock_linear [of 60000 18 example_midway 61000] h2
  have "\<exists>point isFlipped st'.
         interpolate (pathDataRef example_midway)
           (totalDistanceRef example_midway * ((61000 - startTimeRef example_midway) / 90000))
             = Inr (point, isFlipped) \<and>
         animate example_midway 61000 = Inr st' \<and>
         map_option position (vehicleMarkerRef st') = Some (latLng (lat point) (lng point))"
    by blast
  ultimately show ?thesis unfolding e by blast
qed

text \<open>
  Claim C6. For any captured start zoom, the zoom computed at elapsed time 0 is the
  start zoom; at an elapsed time t below 3000 milliseconds it is
  startZoom + (followZoom - startZoom) * (1 - (1 - t / 3000) ^ 3); from 3000
  milliseconds on it is the follow zoom, 10, exactly. The start zoom is the one
  captured when playback starts, and a tick before the end sets the camera to the
  zoom so computed.
\<close>

theorem camera_zoom:
  "currentZoom startZoom 0 = startZoom \<and>
   (t < 3000 \<longrightarrow>
      currentZoom startZoom t =
        startZoom + (FOLLOW_ZOOM_LEVEL - startZoom) * (1 - (1 - t / 3000) ^ 3)) \<and>
   (3000 \<le> t \<longrightarrow> currentZoom startZoom t = FOLLOW_ZOOM_LEVEL) \<and>
   FOLLOW_ZOOM_LEVEL = 10 \<and>
   (2 \<le> length (pathDataRef st0) \<and> \<not> isAnimatingRef st0 \<longrightarrow>
      startZoomRef (animationEffect st0 True now startZoom) = startZoom) \<and>
   (ready st \<and> 2 \<le> length (pathDataRef st) \<and> time - startTimeRef st < 90000 \<longrightarrow>
      (\<exists>pos st'. animate st time = Inr st' \<and>
         camera st' = SetView pos (currentZoom (startZoomRef st) (time - startTimeRef st))))"
proof -
  have z0: "currentZoom startZoom 0 = startZoom"
    by (simp add: currentZoom_def clock_consts)
  have z1: "currentZoom startZoom t =
        startZoom + (FOLLOW_ZOOM_LEVEL - startZoom) * (1 - (1 - t / 3000) ^ 3)" if "t < 3000"
    using that by (simp add: currentZoom_def zoomDuration_def Let_def)
  have z2: "currentZoom startZoom t = FOLLOW_ZOOM_LEVEL" if "3000 \<le> t"
    using that by (simp add: currentZoom_def zoomDuration_def)
  have cap: "startZoomRef (animationEffect st0 True now startZoom) = startZoom"
    if "2 \<le> length (pathDataRef st0)" "\<not> isAnimatingRef st0"
    using that by (rule animationEffect_start)
  have tick: "\<exists>pos st'. animate st time = Inr st' \<and>
         camera st' = SetView pos (currentZoom (startZoomRef st) (time - startTimeRef st))"
    if rdy: "ready st" and len: "2 \<le> length (pathDataRef st)"
      and before: "time - startTimeRef st < 90000"
  proof -
    from animate_step [OF len before] obtain point isFlipped where
      a: "animate st time =
             Inr ((updateMapState st point False isFlipped (latLng (lat point) (lng point))
                     (currentZoom (startZoomRef st) (time - startTimeRef st)))
                  \<lparr>framePending := True\<rparr>)"
      by blast
    have "camera ((updateMapState st point False isFlipped (latLng (lat point) (lng point))
                     (currentZoom (startZoomRef st) (time - startTimeRef st)))
                  \<lparr>framePending := True\<rparr>) =
          SetView (latLng (lat point) (lng point))
            (currentZoom (startZoomRef st) (time - startTimeRef st))"
      using updateMapState_camera [OF rdy] by simp
    with a show ?thesis by blast
  qed
  from z0 z1 z2 cap tick clock_consts(3) show ?thesis by blast
qed

theorem camera_zoom_witness:
  "currentZoom 5 1500 = 75 / 8 \<and> currentZoom 5 3000 = 10 \<and>
   startZoomRef (animationEffect example_loaded True 1000 5) = 5 \<and>
   (\<exists>pos st'. animate example_playing 2500 = Inr st' \<and> camera st' = SetView pos (75 / 8))"
proof -
  note inst = camera_zoom [of 5 _ example_loaded 1000 example_playing 2500]
  have h1: "(1500::real) < 3000" and h2: "(3000::real) \<le> 3000" by simp_all
  have h3: "2 \<le> length (pathDataRef example_loaded) \<and> \<not> isAnimatingRef example_loaded"
    by (simp add: example_loaded_value example_path_def)
  have h4: "ready example_playing \<and> 2 \<le> length (pathDataRef example_playing) \<and>
      2500 - startTimeRef example_playing < 90000"
    by (simp add: ready_def example_playing_value example_path_def)
  from inst [of 1500] h1
  have "currentZoom 5 1500 = 5 + (FOLLOW_ZOOM_LEVEL - 5) * (1 - (1 - 1500 / 3000) ^ 3)"
    by blast
  then have a: "currentZoom 5 1500 = 75 / 8"
    by (simp add: clock_consts power3_eq_cube)
  from inst [of 3000] h2 have b: "currentZoom 5 3000 = 10"
    by (simp add: clock_consts)
  from inst [of 0] h3 have c: "startZoomRef (animationEffect example_loaded True 1000 5) = 5"
    by blast
  from inst [of 0] h4 obtain pos st' where "animate example_playing 2500 = Inr st'"
    and "camera st' = SetView pos
           (currentZoom (startZoomRef example_playing) (2500 - startTimeRef example_playing))"
    by blast
  then have "animate example_playing 2500 = Inr st' \<and> camera st' = SetView pos (75 / 8)"
    using a by (simp add: example_playing_value)
  then have d: "\<exists>pos st'. animate example_playing 2500 = Inr st' \<and>
      camera st' = SetView pos (75 / 8)"
    by blast
  from a b c d show ?thesis by blast
qed

text \<open>
  Claim C9. When the path has fewer than two points, a request to play is ignored: the
  animation effect only clears the pending frame and the animating flag (which the
  route effect has cleared already, so a loaded component is left as it is), nothing
  fails, and no tick runs whatever timestamps follow.
\<close>

theorem degenerate_route_ignored:
  assumes "length (pathDataRef st) < 2"
  shows "animationEffect st True now zoom =
           st\<lparr>framePending := False, isAnimatingRef := False\<rparr> \<and>
         run (animationEffect st True now zoom) ts = Inr (animationEffect st True now zoom) \<and>
         (st = routeEffect distanceTo st0 routeData \<longrightarrow>
            animationEffect st True now zoom = st)"
proof -
  have eq: "animationEffect st True now zoom =
           st\<lparr>framePending := False, isAnimatingRef := False\<rparr>"
    using assms by (simp add: animationEffect_def)
  then have "\<not> framePending (animationEffect st True now zoom)" by simp
  then have idle: "run (animationEffect st True now zoom) ts =
      Inr (animationEffect st True now zoom)"
    by (rule run_idle)
  have "animationEffect st True now zoom = st"
    if "st = routeEffect distanceTo st0 routeData"
  proof -
    have "\<not> framePending st \<and> \<not> isAnimatingRef st"
      unfolding that by (cases routeData; simp add: routeEffect_def Let_def)
    with eq show ?thesis by simp
  qed
  with eq idle show ?thesis by blast
qed

theorem degenerate_route_ignored_witness:
  "animationEffect initialMapContent True 1000 5 = initialMapContent \<and>
   run (animationEffect initialMapContent True 1000 5) [1016, 1033] = Inr initialMapContent"
proof -
  have h: "length (pathDataRef initialMapContent) < 2"
    by (simp add: initialMapContent_def)
  have e: "initialMapContent\<lparr>framePending := False, isAnimatingRef := False\<rparr> = initialMapContent"
    by (simp add: initialMapContent_def)
  note inst = degenerate_route_ignored [OF h, of 1000 5 "[1016, 1033]" planarDistance
      initialMapContent None]
  from inst have "animationEffect initialMapContent True 1000 5 =
      initialMapContent\<lparr>framePending := False, isAnimatingRef := False\<rparr>"
    by blast
  then have a: "animationEffect initialMapContent True 1000 5 = initialMapContent"
    by (simp only: e)
  from inst have "run (animationEffect initialMapContent True 1000 5) [1016, 1033] =
      Inr (animationEffect initialMapContent True 1000 5)"
    by blast
  then have "run (animationEffect initialMapContent True 1000 5) [1016, 1033] =
      Inr initialMapContent"
    by (simp only: a)
  with a show ?thesis by blast
qed




text \<open>
  Claim C10, as stated, fails. On the path of one segment from latitude -56 to the
  double written 28.4, interpolating at the total distance gives the ratio 1, and the
  doubles of line 363 give a latitude above both end points:
  -56 + (28.4 - -56) * 1 is 28.400000000000006.
\<close>

theorem interpolation_overshoot_counterexample:
  "cumulativeDistance (overshoot_path ! 0) = 0 \<and>
   cumulativeDistance (last overshoot_path) = 100 \<and>
   round_double (142 / 5) = lat (overshoot_path ! 1) \<and>
   segmentRatio_rounded round_double (overshoot_path ! 0) (overshoot_path ! 1) 100 = Some 1 \<and>
   interpolate_rounded round_double overshoot_path 100 =
     Inr (\<lparr>lat = 999236167322829 / 35184372088832, lng = 0, mode = CAR,
           cumulativeDistance = 100\<rparr>, False) \<and>
   max (lat (overshoot_path ! 0)) (lat (overshoot_path ! 1)) < 999236167322829 / 35184372088832"
  using segmentRatio_overshoot
  by (simp add: interpolate_overshoot round_double_28_4) (simp add: overshoot_path_def)

text \<open>
  Claim C10, amended. For every path of at least two points whose cumulative distances
  start at 0, and every target distance between 0 and the last cumulative distance,
  the ratio that the interpolator computes (with the index clamped to at least 1) lies
  between 0 and 1, and the interpolated latitude and longitude are computed from the
  end points of the chosen segment as p1 + (p2 - p1) * ratio. This holds in exact
  arithmetic and in the arithmetic of doubles (for every monotone rounding that keeps
  0 and 1). Nothing is said of the result lying between the end points.
\<close>

theorem ratio_in_unit_interval:
  assumes rnd_mono: "\<forall>x y. x \<le> y \<longrightarrow> rnd x \<le> rnd y"
    and rnd_zero: "rnd 0 = 0"
    and rnd_one: "rnd 1 = 1"
    and len: "2 \<le> length path"
    and zero: "cumulativeDistance (path ! 0) = 0"
    and d0: "0 \<le> d"
    and d1: "d \<le> cumulativeDistance (last path)"
  shows "\<exists>k r. nextIdx path d = int (Suc k) \<and> Suc k < length path \<and>
           segmentRatio_rounded rnd (path ! k) (path ! Suc k) d = Some r \<and> 0 \<le> r \<and> r \<le> 1 \<and>
           interpolate_rounded rnd path d =
             Inr (\<lparr>lat = rnd (lat (path ! k) +
                              rnd (rnd (lat (path ! Suc k) - lat (path ! k)) * r)),
                   lng = rnd (lng (path ! k) +
                              rnd (rnd (lng (path ! Suc k) - lng (path ! k)) * r)),
                   mode = mode (path ! k), cumulativeDistance = d\<rparr>,
                  lng (path ! Suc k) < lng (path ! k)) \<and>
           (rnd = (\<lambda>x. x) \<longrightarrow> interpolate_rounded rnd path d = interpolate path d)"
proof -
  let ?P = "\<lambda>p. d \<le> cumulativeDistance p"
  let ?f = "findIndex ?P path"
  let ?c = "\<lambda>i. cumulativeDistance (path ! i)"
  from nextIdx_Suc [OF len, of d] obtain k
    where idx: "nextIdx path d = int (Suc k)" and k: "Suc k < length path" by blast
  define seg where "seg = rnd (?c (Suc k) - ?c k)"
  define part where "part = rnd (d - ?c k)"
  define r where "r = (if seg > 0 then rnd (part / seg) else 0)"
  have ratio: "segmentRatio_rounded rnd (path ! k) (path ! Suc k) d = Some r"
    by (simp add: segmentRatio_rounded_def js_div_def r_def seg_def part_def Let_def)
  from len have "path \<noteq> []" by auto
  then have "last path \<in> set path" by simp
  with d1 have "\<exists>x\<in>set path. ?P x" by blast
  then have nn: "0 \<le> ?f" by (rule findIndex_found)
  have r01: "0 \<le> r \<and> r \<le> 1"
  proof (cases "?f = 0")
    case True
    with findIndex_sat [OF nn] have "d \<le> ?c 0" by simp
    with zero d0 have d: "d = 0" by simp
    from True idx have k0: "k = 0" by (simp add: nextIdx_def)
    have "part = 0" using d k0 zero rnd_zero by (simp add: part_def)
    then have "r = 0" using rnd_zero by (simp add: r_def)
    then show ?thesis by simp
  next
    case False
    with nn idx have f: "?f = int (Suc k)" by (simp add: nextIdx_def Let_def)
    then have nf: "nat ?f = Suc k" by simp
    from findIndex_sat [OF nn] nf have hi: "d \<le> ?c (Suc k)" by simp
    from findIndex_least [of k ?P path] nf have lo: "?c k < d" by simp
    have "rnd 0 \<le> rnd (d - ?c k)" using rnd_mono lo by simp
    then have p0: "0 \<le> part" using rnd_zero by (simp add: part_def)
    have ps: "part \<le> seg" using rnd_mono hi by (simp add: part_def seg_def)
    show ?thesis
    proof (cases "seg > 0")
      case True
      then have "0 \<le> part / seg" "part / seg \<le> 1" using p0 ps by simp_all
      with rnd_mono have "rnd 0 \<le> rnd (part / seg)" "rnd (part / seg) \<le> rnd 1" by blast+
      with True rnd_zero rnd_one show ?thesis by (simp add: r_def)
    next
      case False
      then show ?thesis by (simp add: r_def)
    qed
  qed
  note val = interpolate_rounded_segment [OF len idx ratio]
  have exact: "interpolate_rounded rnd path d = interpolate path d" if "rnd = (\<lambda>x. x)"
    using that by (simp add: interpolate_rounded_exact)
  from idx k ratio r01 val exact show ?thesis by blast
qed

theorem ratio_in_unit_interval_witness:
  "\<exists>k r. nextIdx overshoot_path 100 = int (Suc k) \<and>
         segmentRatio_rounded round_double (overshoot_path ! k) (overshoot_path ! Suc k) 100
           = Some r \<and>
         0 \<le> r \<and> r \<le> 1"
proof -
  have h1: "\<forall>x y. x \<le> y \<longrightarrow> round_double x \<le> round_double y"
    by (simp add: round_double_mono)
  have h2: "round_double 0 = 0" by (rule round_double_0)
  have h3: "round_double 1 = 1" by (rule round_double_1)
  have h4: "2 \<le> length overshoot_path"
    and h5: "cumulativeDistance (overshoot_path ! 0) = 0"
    and h6: "(0::real) \<le> 100"
    and h7: "100 \<le> cumulativeDistance (last overshoot_path)"
    by (simp_all add: overshoot_path_def)
  from ratio_in_unit_interval [OF h1 h2 h3 h4 h5 h6 h7]
  show ?thesis by blast
qed

text \<open>
  Claim C1, amended. On a path with non-decreasing cumulative distances, let the point
  at index b be the last point of the outgoing leg and the point at index b + 1 its
  duplicate, the first point of the incoming leg, at the same cumulative distance.
  Interpolating at that distance divides by no zero (a ratio is always computed, and
  for the zero-length step it is defined as 0), and the active mode is the mode of p1,
  the start of the chosen segment, which is a path point before the duplicate: the
  boundary point itself when it is the first point of the path, a point before the
  boundary point otherwise. When the boundary point is reached by a step of positive
  length, p1 is the point just before it, and the active mode is the outgoing leg's
  mode whenever that point belongs to the outgoing leg. The incoming leg's point is
  never the one whose mode is taken. This holds for every rounding of the arithmetic.
\<close>

theorem boundary_keeps_outgoing_mode:
  assumes len: "Suc b < length path"
    and mono: "\<forall>k. Suc k < length path \<longrightarrow>
                 cumulativeDistance (path ! k) \<le> cumulativeDistance (path ! Suc k)"
    and dup: "cumulativeDistance (path ! Suc b) = cumulativeDistance (path ! b)"
    and d: "d = cumulativeDistance (path ! b)"
  shows "\<exists>k point isFlipped.
           nextIdx path d = int (Suc k) \<and> k \<le> b \<and> (0 < b \<longrightarrow> k < b) \<and>
           segmentRatio_rounded rnd (path ! k) (path ! Suc k) d \<noteq> None \<and>
           (rnd 0 = 0 \<longrightarrow>
              segmentRatio_rounded rnd (path ! b) (path ! Suc b) d = Some 0) \<and>
           interpolate_rounded rnd path d = Inr (point, isFlipped) \<and>
           mode point = mode (path ! k) \<and>
           (\<forall>j. b = Suc j \<and> cumulativeDistance (path ! j) < cumulativeDistance (path ! b)
                \<longrightarrow> k = j) \<and>
           (\<forall>j. b = Suc j \<and> cumulativeDistance (path ! j) < cumulativeDistance (path ! b)
                \<and> mode (path ! j) = mode (path ! b)
                \<longrightarrow> mode point = mode (path ! b)) \<and>
           (b = 0 \<longrightarrow> mode point = mode (path ! b)) \<and>
           (rnd = (\<lambda>x. x) \<longrightarrow> interpolate path d = Inr (point, isFlipped))"
proof -
  let ?P = "\<lambda>p. d \<le> cumulativeDistance p"
  let ?f = "findIndex ?P path"
  from len have len2: "2 \<le> length path" and b: "b < length path" by simp_all
  from nextIdx_Suc [OF len2, of d] obtain k
    where idx: "nextIdx path d = int (Suc k)" and k: "Suc k < length path" by blast
  have "path ! b \<in> set path" using b by simp
  moreover have "?P (path ! b)" using d by simp
  ultimately have "\<exists>x\<in>set path. ?P x" by blast
  then have nn: "0 \<le> ?f" by (rule findIndex_found)
  have fb: "nat ?f \<le> b"
  proof (rule ccontr)
    assume "\<not> nat ?f \<le> b"
    then have "b < nat ?f" by simp
    then have "\<not> ?P (path ! b)" by (rule findIndex_least)
    with d show False by simp
  qed
  have kf: "int (Suc k) = (if ?f = 0 then 1 else ?f)"
    using idx nn by (auto simp: nextIdx_def Let_def)
  have kb: "k \<le> b" and kb': "0 < b \<longrightarrow> k < b"
    using kf fb nn by (auto split: if_splits)
  obtain r where r: "segmentRatio_rounded rnd (path ! k) (path ! Suc k) d = Some r"
    using segmentRatio_rounded_total [of rnd "path ! k" "path ! Suc k" d] by auto
  define point where "point =
     \<lparr>lat = rnd (lat (path ! k) + rnd (rnd (lat (path ! Suc k) - lat (path ! k)) * r)),
      lng = rnd (lng (path ! k) + rnd (rnd (lng (path ! Suc k) - lng (path ! k)) * r)),
      mode = mode (path ! k), cumulativeDistance = d\<rparr>"
  have val: "interpolate_rounded rnd path d = Inr (point, lng (path ! Suc k) < lng (path ! k))"
    unfolding point_def by (rule interpolate_rounded_segment [OF len2 idx r])
  have m: "mode point = mode (path ! k)" by (simp add: point_def)
  have zero_step: "segmentRatio_rounded rnd (path ! b) (path ! Suc b) d = Some 0"
    if "rnd 0 = 0"
    using that dup by (simp add: segmentRatio_rounded_def Let_def)
  have pred: "k = j"
    if bj: "b = Suc j"
      and step: "cumulativeDistance (path ! j) < cumulativeDistance (path ! b)" for j
  proof -
    have below: "\<forall>i\<le>j. cumulativeDistance (path ! i) < d"
    proof (intro allI impI)
      fix i assume "i \<le> j"
      moreover have "j < length path" using b bj by simp
      ultimately have "cumulativeDistance (path ! i) \<le> cumulativeDistance (path ! j)"
        using steps_mono [of path cumulativeDistance i j] mono by blast
      with step d show "cumulativeDistance (path ! i) < d" by simp
    qed
    have "Suc j < length path" using b bj by simp
    from nextIdx_at [OF this below] d bj have "nextIdx path d = int (Suc j)" by simp
    with idx show ?thesis by simp
  qed
  have out: "mode point = mode (path ! b)"
    if "b = Suc j" "cumulativeDistance (path ! j) < cumulativeDistance (path ! b)"
      "mode (path ! j) = mode (path ! b)" for j
    using pred [OF that(1,2)] that(3) m by simp
  have first: "mode point = mode (path ! b)" if "b = 0"
    using that kb m by simp
  have exact: "interpolate path d = Inr (point, lng (path ! Suc k) < lng (path ! k))"
    if "rnd = (\<lambda>x. x)"
    using val that by (simp add: interpolate_rounded_exact)
  from idx kb kb' r zero_step val m pred out first exact show ?thesis
    by (intro exI [of _ k] exI [of _ point] exI [of _ "lng (path ! Suc k) < lng (path ! k)"])
       (simp; blast)
qed

theorem boundary_keeps_outgoing_mode_witness:
  "\<exists>k point isFlipped.
     nextIdx example_path 10 = int (Suc k) \<and> k < 1 \<and>
     interpolate_rounded round_double example_path 10 = Inr (point, isFlipped) \<and>
     mode point = CAR \<and> mode (example_path ! 2) = TRAIN"
proof -
  have h1: "Suc 1 < length example_path"
    by (simp add: example_path_def)
  have h2: "\<forall>k. Suc k < length example_path \<longrightarrow>
      cumulativeDistance (example_path ! k) \<le> cumulativeDistance (example_path ! Suc k)"
  proof (intro allI impI)
    fix k assume "Suc k < length example_path"
    then have "k = 0 \<or> k = 1 \<or> k = 2" by (auto simp: example_path_def)
    then show "cumulativeDistance (example_path ! k)
        \<le> cumulativeDistance (example_path ! Suc k)"
      by (auto simp: example_path_def)
  qed
  have h3: "cumulativeDistance (example_path ! Suc 1) = cumulativeDistance (example_path ! 1)"
    and h4: "10 = cumulativeDistance (example_path ! 1)"
    by (simp_all add: example_path_def)
  have j: "(1::nat) = Suc 0 \<and>
      cumulativeDistance (example_path ! 0) < cumulativeDistance (example_path ! 1) \<and>
      mode (example_path ! 0) = mode (example_path ! 1)"
    by (simp add: example_path_def)
  have v: "mode (example_path ! 1) = CAR" "mode (example_path ! 2) = TRAIN"
    by (simp_all add: example_path_def)
  from boundary_keeps_outgoing_mode [OF h1 h2 h3 h4, of round_double]
  obtain k point isFlipped where
    a: "nextIdx example_path 10 = int (Suc k)" and b: "0 < (1::nat) \<longrightarrow> k < 1"
    and c: "interpolate_rounded round_double example_path 10 = Inr (point, isFlipped)"
    and e: "\<forall>j. 1 = Suc j \<and>
                cumulativeDistance (example_path ! j) < cumulativeDistance (example_path ! 1)
                \<and> mode (example_path ! j) = mode (example_path ! 1)
                \<longrightarrow> mode point = mode (example_path ! 1)"
    by (elim exE conjE) (rule that)
  from e j have "mode point = mode (example_path ! 1)" by blast
  with a b c v show ?thesis by auto
qed

text \<open>
  Claim C3. A route whose path has at least two points is loaded and played from time
  \<open>now\<close>. For every tick before the fixed duration of 90 seconds has elapsed the raw
  progress is below 1, and after all of them the completion callback has not been
  called and a frame is still pending. At the first tick that reaches the duration the
  raw progress is 1, the vehicle is set exactly on the last path point, the completion
  callback is called, for the first and only time, and no frame is pending, so that
  later timestamps run no tick and the count stays at one.
\<close>

theorem completion_once:
  assumes st: "st = routeEffect distanceTo st0 (Some routeData)"
    and len: "2 \<le> length (pathDataRef st)"
    and before: "\<forall>t\<in>set ts. t - now < 90000"
    and reach: "90000 \<le> t - now"
  shows "rawProgress (t - now) = 1 \<and>
         (\<forall>t'\<in>set ts. rawProgress (t' - now) < 1) \<and>
         (\<exists>st2 st3.
            run (animationEffect st True now zoom) ts = Inr st2 \<and>
            completions st2 = completions st0 \<and> framePending st2 \<and> isAnimatingRef st2 \<and>
            animate st2 t = Inr st3 \<and>
            run (animationEffect st True now zoom) (ts @ [t]) = Inr st3 \<and>
            run (animationEffect st True now zoom) (ts @ t # us) = Inr st3 \<and>
            completions st3 = completions st0 + 1 \<and>
            \<not> framePending st3 \<and> \<not> isAnimatingRef st3 \<and>
            map_option position (vehicleMarkerRef st3) =
              Some (latLng (lat (last (pathDataRef st))) (lng (last (pathDataRef st)))))"
proof -
  let ?st1 = "animationEffect st True now zoom"
  from len have ne: "pathDataRef st \<noteq> []" by auto
  have rdy: "ready st" unfolding st using ne st by (intro routeEffect_ready) simp
  have idle: "\<not> isAnimatingRef st" unfolding st by (rule routeEffect_frame)
  have c0: "completions st = completions st0" unfolding st by (rule routeEffect_frame)
  note start = animationEffect_start [OF len idle, of now zoom]
  have anim1: "isAnimatingRef ?st1" using len idle by (simp add: animationEffect_def)
  have early: "\<forall>t'\<in>set ts. rawProgress (t' - now) < 1"
  proof
    fix t' assume "t' \<in> set ts"
    with before have "t' - now < 90000" by blast
    then have "\<not> 1 \<le> rawProgress (t' - now)" by (simp add: rawProgress_ge_1)
    then show "rawProgress (t' - now) < 1" by simp
  qed
  have "\<exists>st'. (\<forall>rest. run ?st1 (ts @ rest) = run st' rest) \<and> ready st' \<and>
           framePending st' \<and> isAnimatingRef st' = isAnimatingRef ?st1 \<and>
           pathDataRef st' = pathDataRef ?st1 \<and> startTimeRef st' = startTimeRef ?st1 \<and>
           completions st' = completions ?st1"
    using start rdy len before by (intro run_before_end) simp_all
  then obtain st2 where r2: "\<And>rest. run ?st1 (ts @ rest) = run st2 rest"
    and rdy2: "ready st2" and f2: "framePending st2" and a2: "isAnimatingRef st2"
    and p2: "pathDataRef st2 = pathDataRef st" and s2: "startTimeRef st2 = now"
    and c2: "completions st2 = completions st0"
    using start c0 anim1 by auto
  have stop: "run ?st1 ts = Inr st2" using r2 [of "[]"] by simp
  from animate_final [of st2 t] rdy2 ne p2 s2 reach obtain st3 where
    a3: "animate st2 t = Inr st3" and c3: "completions st3 = completions st0 + 1"
    and f3: "\<not> framePending st3" and i3: "\<not> isAnimatingRef st3"
    and pos3: "map_option position (vehicleMarkerRef st3) =
             Some (latLng (lat (last (pathDataRef st))) (lng (last (pathDataRef st))))"
    using c2 by auto
  have idle3: "run st3 rest = Inr st3" for rest using f3 by (rule run_idle)
  have "run st2 (t # rest) = run st3 rest" for rest using f2 a3 by simp
  then have fin: "run ?st1 (ts @ t # rest) = Inr st3" for rest
    using r2 [of "t # rest"] idle3 [of rest] by simp
  from stop c2 f2 a2 a3 fin [of "[]"] fin [of us] c3 f3 i3 pos3
  have "\<exists>st2 st3.
            run ?st1 ts = Inr st2 \<and>
            completions st2 = completions st0 \<and> framePending st2 \<and> isAnimatingRef st2 \<and>
            animate st2 t = Inr st3 \<and>
            run ?st1 (ts @ [t]) = Inr st3 \<and>
            run ?st1 (ts @ t # us) = Inr st3 \<and>
            completions st3 = completions st0 + 1 \<and>
            \<not> framePending st3 \<and> \<not> isAnimatingRef st3 \<and>
            map_option position (vehicleMarkerRef st3) =
              Some (latLng (lat (last (pathDataRef st))) (lng (last (pathDataRef st))))"
    by blast
  with rawProgress_eq_1 [OF reach] early show ?thesis by blast
qed

theorem completion_once_witness:
  "\<exists>st2 st3. run example_playing [46000] = Inr st2 \<and>
      completions st2 = 0 \<and> framePending st2 \<and>
      animate st2 91000 = Inr st3 \<and>
      run example_playing [46000, 91000, 92000] = Inr st3 \<and>
      completions st3 = 1 \<and> \<not> framePending st3 \<and>
      map_option position (vehicleMarkerRef st3) = Some \<lparr>lat = 4, lng = 6\<rparr>"
proof -
  have len: "2 \<le> length (pathDataRef example_loaded)"
    by (simp add: example_loaded_value example_path_def)
  have before: "\<forall>t\<in>set [46000::real]. t - 1000 < 90000" by simp
  have reach: "(90000::real) \<le> 91000 - 1000" by simp
  from completion_once [OF example_loaded_def len before reach, of 5 "[92000]"]
  obtain st2 st3 where
    r2: "run (animationEffect example_loaded True 1000 5) [46000] = Inr st2"
    and c2: "completions st2 = completions initialMapContent"
    and f2: "framePending st2"
    and a3: "animate st2 91000 = Inr st3"
    and r3: "run (animationEffect example_loaded True 1000 5) ([46000] @ 91000 # [92000])
              = Inr st3"
    and c3: "completions st3 = completions initialMapContent + 1"
    and f3: "\<not> framePending st3"
    and p3: "map_option position (vehicleMarkerRef st3) =
              Some (latLng (lat (last (pathDataRef example_loaded)))
                           (lng (last (pathDataRef example_loaded))))"
    by blast
  have "run example_playing [46000] = Inr st2"
    using r2 by (simp only: example_playing_def)
  moreover have "run example_playing [46000, 91000, 92000] = Inr st3"
    using r3 by (simp only: example_playing_def append_Cons append_Nil)
  moreover have "completions st2 = 0" "completions st3 = 1"
    using c2 c3 by (simp_all add: initialMapContent_def)
  moreover have "map_option position (vehicleMarkerRef st3) = Some \<lparr>lat = 4, lng = 6\<rparr>"
    using p3 by (simp add: example_loaded_value example_path_def latLng_def)
  ultimately show ?thesis using f2 a3 f3 by blast
qed

end
